theory Spec2Isabelle
  imports Main "HOL-Library.Word" "HOL-Library.Sublist"
begin

unbundle bit_operations_syntax

section \<open>Data model of FlexibleI2C.h\<close>

type_synonym uint8 = "8 word"
type_synonym uint16 = "16 word"
type_synonym uint32 = "32 word"

text \<open>The two global bus objects of the Arduino core. A \<^verbatim>\<open>TwoWire*\<close> is a
  \<open>TwoWire option\<close>, \<open>None\<close> being the null pointer.\<close>

datatype TwoWire = Wire | Wire1

text \<open>\<^verbatim>\<open>enum I2CError\<close>, values 0 to 6 in this order. The code also casts the status byte
  of the bus driver to the enum; a byte above 6 names no enumerator and is kept as
  \<open>UNKNOWN_ERROR\<close> with its value.\<close>

datatype I2CError =
    SUCCESS
  | TIMEOUT
  | NACK_ADDRESS
  | NACK_DATA
  | OTHER_ERROR
  | BUS_NOT_INITIALIZED
  | INVALID_PARAMETERS
  | UNKNOWN_ERROR uint8

definition I2CError_of_status :: "uint8 \<Rightarrow> I2CError" where
  "I2CError_of_status e =
     (if e = 0 then SUCCESS
      else if e = 1 then TIMEOUT
      else if e = 2 then NACK_ADDRESS
      else if e = 3 then NACK_DATA
      else if e = 4 then OTHER_ERROR
      else if e = 5 then BUS_NOT_INITIALIZED
      else if e = 6 then INVALID_PARAMETERS
      else UNKNOWN_ERROR e)"

record I2CBusConfig =
  sda_pin :: uint8
  scl_pin :: uint8
  frequency :: uint32
  wire_instance :: "TwoWire option"
  initialized :: bool

record I2CDeviceInfo =
  address :: uint8
  bus_id :: uint8
  device_name :: string
  responsive :: bool
  last_seen :: uint32

text \<open>The virtual hooks \<^verbatim>\<open>onDeviceFound\<close> and \<^verbatim>\<open>onDeviceLost\<close> have empty bodies in the
  base class. Their invocations are recorded, in order, in the field \<open>hook_calls\<close>.\<close>

datatype hook_call = DeviceFound uint8 uint8 | DeviceLost uint8 uint8

text \<open>The object state (\<^verbatim>\<open>buses\<close>, \<^verbatim>\<open>known_devices\<close>, \<^verbatim>\<open>i2c_timeout\<close>, \<^verbatim>\<open>last_error\<close>)
  together with the state \<open>world\<close> of everything outside the object that the bus driver
  and the clock read and change.\<close>

record 'w FlexibleI2C =
  buses :: "uint8 \<rightharpoonup> I2CBusConfig"
  known_devices :: "I2CDeviceInfo list"
  i2c_timeout :: uint16
  last_error :: I2CError
  hook_calls :: "hook_call list"
  world :: 'w

text \<open>The bus driver (\<^verbatim>\<open>Wire.h\<close>) and the clock (\<^verbatim>\<open>Arduino.h\<close>) are not part of the
  repository: the operations take them as a parameter, one function per member the code
  calls, each acting on the outside state. \<open>wire_read\<close> returns an \<^verbatim>\<open>int\<close>.\<close>

record 'w platform =
  wire_begin :: "TwoWire \<Rightarrow> uint8 \<Rightarrow> uint8 \<Rightarrow> uint32 \<Rightarrow> 'w \<Rightarrow> bool \<times> 'w"
  wire_beginTransmission :: "TwoWire \<Rightarrow> uint8 \<Rightarrow> 'w \<Rightarrow> 'w"
  wire_write :: "TwoWire \<Rightarrow> uint8 \<Rightarrow> 'w \<Rightarrow> 'w"
  wire_endTransmission :: "TwoWire \<Rightarrow> bool \<Rightarrow> 'w \<Rightarrow> uint8 \<times> 'w"
  wire_requestFrom :: "TwoWire \<Rightarrow> uint8 \<Rightarrow> uint8 \<Rightarrow> uint8 \<Rightarrow> 'w \<Rightarrow> uint8 \<times> 'w"
  wire_read :: "TwoWire \<Rightarrow> 'w \<Rightarrow> int \<times> 'w"
  millis :: "'w \<Rightarrow> uint32 \<times> 'w"

section \<open>Bus management\<close>

definition FlexibleI2C_new :: "'w \<Rightarrow> 'w FlexibleI2C" where
  "FlexibleI2C_new w =
     \<lparr>buses = Map.empty, known_devices = [], i2c_timeout = 1000, last_error = SUCCESS,
      hook_calls = [], world = w\<rparr>"

definition setError :: "I2CError \<Rightarrow> 'w FlexibleI2C \<Rightarrow> 'w FlexibleI2C" where
  "setError e s = s\<lparr>last_error := e\<rparr>"

definition getLastError :: "'w FlexibleI2C \<Rightarrow> I2CError" where
  "getLastError s = last_error s"

definition isBusInitialized :: "uint8 \<Rightarrow> 'w FlexibleI2C \<Rightarrow> bool" where
  "isBusInitialized b s = (case buses s b of None \<Rightarrow> False | Some c \<Rightarrow> initialized c)"

definition getBus :: "uint8 \<Rightarrow> 'w FlexibleI2C \<Rightarrow> TwoWire option" where
  "getBus b s =
     (case buses s b of
        None \<Rightarrow> None
      | Some c \<Rightarrow> if initialized c then wire_instance c else None)"

definition initBus ::
  "'w platform \<Rightarrow> uint8 \<Rightarrow> uint8 \<Rightarrow> uint8 \<Rightarrow> uint32 \<Rightarrow> 'w FlexibleI2C \<Rightarrow> bool \<times> 'w FlexibleI2C" where
  "initBus p b sda scl freq s =
     (if b > 1 then (False, setError INVALID_PARAMETERS s)
      else if (case buses s b of None \<Rightarrow> False | Some c \<Rightarrow> initialized c) then (True, s)
      else
        let wire = (if b = 0 then Wire else Wire1);
            config = \<lparr>sda_pin = sda, scl_pin = scl, frequency = freq,
                      wire_instance = Some wire, initialized = False\<rparr>;
            (success, w') = wire_begin p wire sda scl freq (world s);
            s1 = s\<lparr>world := w'\<rparr>
        in if success
           then (True, setError SUCCESS
                   (s1\<lparr>buses := (buses s1)(b \<mapsto> config\<lparr>initialized := True\<rparr>)\<rparr>))
           else (False, setError OTHER_ERROR s1))"

definition validateBusAndAddress :: "uint8 \<Rightarrow> uint8 \<Rightarrow> 'w FlexibleI2C \<Rightarrow> bool \<times> 'w FlexibleI2C" where
  "validateBusAndAddress b a s =
     (if \<not> isBusInitialized b s then (False, setError BUS_NOT_INITIALIZED s)
      else if a = 0 \<or> a > 127 then (False, setError INVALID_PARAMETERS s)
      else (True, s))"

section \<open>Scanning\<close>

definition onDeviceFound :: "uint8 \<Rightarrow> uint8 \<Rightarrow> 'w FlexibleI2C \<Rightarrow> 'w FlexibleI2C" where
  "onDeviceFound b a s = s\<lparr>hook_calls := hook_calls s @ [DeviceFound b a]\<rparr>"

definition onDeviceLost :: "uint8 \<Rightarrow> uint8 \<Rightarrow> 'w FlexibleI2C \<Rightarrow> 'w FlexibleI2C" where
  "onDeviceLost b a s = s\<lparr>hook_calls := hook_calls s @ [DeviceLost b a]\<rparr>"

text \<open>The inner loop of the sweep over \<^verbatim>\<open>known_devices\<close>: the first record of the pair
  (address, bus) is marked responsive and stamped with \<^verbatim>\<open>millis()\<close>, and the loop breaks.
  The flag returned is \<^verbatim>\<open>device_exists\<close>.\<close>

fun touch_device ::
  "'w platform \<Rightarrow> uint8 \<Rightarrow> uint8 \<Rightarrow> I2CDeviceInfo list \<Rightarrow> 'w \<Rightarrow> bool \<times> I2CDeviceInfo list \<times> 'w" where
  "touch_device p b a [] w = (False, [], w)"
| "touch_device p b a (d # ds) w =
     (if address d = a \<and> bus_id d = b
      then (let (t, w') = millis p w
            in (True, d\<lparr>responsive := True, last_seen := t\<rparr> # ds, w'))
      else (let (ex, ds', w') = touch_device p b a ds w in (ex, d # ds', w')))"

text \<open>One iteration of \<^verbatim>\<open>for (uint8_t address = 1; address < 127; address++)\<close>.\<close>

definition scan_body ::
  "'w platform \<Rightarrow> TwoWire \<Rightarrow> uint8 \<Rightarrow> uint8 \<Rightarrow> uint8 list \<times> 'w FlexibleI2C \<Rightarrow>
   uint8 list \<times> 'w FlexibleI2C" where
  "scan_body p wire b a acc =
     (let (found, s) = acc;
          w1 = wire_beginTransmission p wire a (world s);
          (err, w2) = wire_endTransmission p wire True w1;
          s1 = s\<lparr>world := w2\<rparr>
      in if err = 0 then
           (let s2 = onDeviceFound b a s1;
                (device_exists, devs, w3) = touch_device p b a (known_devices s2) (world s2);
                s3 = s2\<lparr>known_devices := devs, world := w3\<rparr>
            in if \<not> device_exists then
                 (let (t, w4) = millis p (world s3);
                      new_device = \<lparr>address = a, bus_id = b, device_name = ''Unknown Device'',
                                    responsive = True, last_seen = t\<rparr>
                  in (found @ [a],
                      s3\<lparr>known_devices := known_devices s3 @ [new_device], world := w4\<rparr>))
               else (found @ [a], s3))
         else (found, s1))"

function scan_loop ::
  "'w platform \<Rightarrow> TwoWire \<Rightarrow> uint8 \<Rightarrow> uint8 \<Rightarrow> uint8 list \<times> 'w FlexibleI2C \<Rightarrow>
   uint8 list \<times> 'w FlexibleI2C" where
  "scan_loop p wire b a acc =
     (if a < 127 then scan_loop p wire b (a + 1) (scan_body p wire b a acc) else acc)"
  by pat_completeness auto
termination
  by (relation "measure (\<lambda>(p, wire, b, a, acc). 127 - unat a)")
     (auto simp: word_less_nat_alt unat_word_ariths)

declare scan_loop.simps [simp del]

text \<open>The second loop of \<^verbatim>\<open>scanBus\<close>: every record of the bus whose address is not among
  the found ones and that was responsive is flipped and reported lost.\<close>

fun mark_lost ::
  "uint8 \<Rightarrow> uint8 list \<Rightarrow> I2CDeviceInfo list \<Rightarrow> 'w FlexibleI2C \<Rightarrow> I2CDeviceInfo list \<times> 'w FlexibleI2C" where
  "mark_lost b found [] s = ([], s)"
| "mark_lost b found (d # ds) s =
     (if bus_id d = b \<and> \<not> (address d \<in> set found) \<and> responsive d
      then (let (ds', s') = mark_lost b found ds (onDeviceLost b (address d) s)
            in (d\<lparr>responsive := False\<rparr> # ds', s'))
      else (let (ds', s') = mark_lost b found ds s in (d # ds', s')))"

definition scanBus :: "'w platform \<Rightarrow> uint8 \<Rightarrow> 'w FlexibleI2C \<Rightarrow> uint8 list \<times> 'w FlexibleI2C" where
  "scanBus p b s =
     (if \<not> isBusInitialized b s then ([], setError BUS_NOT_INITIALIZED s)
      else case getBus b s of
        None \<Rightarrow> ([], setError BUS_NOT_INITIALIZED s)
      | Some wire \<Rightarrow>
          (let (found, s1) = scan_loop p wire b 1 ([], s);
               (devs, s2) = mark_lost b found (known_devices s1) s1
           in (found, setError SUCCESS (s2\<lparr>known_devices := devs\<rparr>))))"

definition getAllDevices :: "'w FlexibleI2C \<Rightarrow> I2CDeviceInfo list" where
  "getAllDevices s = known_devices s"

section \<open>Register operations\<close>

text \<open>The operations below dereference the result of \<^verbatim>\<open>getBus\<close> without a null check.
  The result \<open>None\<close> is that dereference of a null pointer (an initialized slot whose
  \<^verbatim>\<open>wire_instance\<close> is null), or an access past the end of the caller's array.\<close>

definition isDevicePresent ::
  "'w platform \<Rightarrow> uint8 \<Rightarrow> uint8 \<Rightarrow> 'w FlexibleI2C \<Rightarrow> (bool \<times> 'w FlexibleI2C) option" where
  "isDevicePresent p b a s =
     (let (ok, s1) = validateBusAndAddress b a s
      in if \<not> ok then Some (False, s1)
         else case getBus b s1 of
           None \<Rightarrow> None
         | Some wire \<Rightarrow>
             (let w1 = wire_beginTransmission p wire a (world s1);
                  (err, w2) = wire_endTransmission p wire True w1
              in Some (err = 0, s1\<lparr>world := w2\<rparr>)))"

definition writeRegister ::
  "'w platform \<Rightarrow> uint8 \<Rightarrow> uint8 \<Rightarrow> uint8 \<Rightarrow> uint8 \<Rightarrow> 'w FlexibleI2C \<Rightarrow>
   (bool \<times> 'w FlexibleI2C) option" where
  "writeRegister p b a reg data s =
     (let (ok, s1) = validateBusAndAddress b a s
      in if \<not> ok then Some (False, s1)
         else case getBus b s1 of
           None \<Rightarrow> None
         | Some wire \<Rightarrow>
             (let w1 = wire_beginTransmission p wire a (world s1);
                  w2 = wire_write p wire reg w1;
                  w3 = wire_write p wire data w2;
                  (err, w4) = wire_endTransmission p wire True w3;
                  s2 = s1\<lparr>world := w4\<rparr>
              in if err = 0 then Some (True, setError SUCCESS s2)
                 else Some (False, setError (I2CError_of_status err) s2)))"

text \<open>\<^verbatim>\<open>data >> 8\<close> and \<^verbatim>\<open>data & 0xFF\<close> are passed to \<^verbatim>\<open>write\<close>, which takes a byte.\<close>

definition writeRegister16 ::
  "'w platform \<Rightarrow> uint8 \<Rightarrow> uint8 \<Rightarrow> uint8 \<Rightarrow> uint16 \<Rightarrow> 'w FlexibleI2C \<Rightarrow>
   (bool \<times> 'w FlexibleI2C) option" where
  "writeRegister16 p b a reg data s =
     (let (ok, s1) = validateBusAndAddress b a s
      in if \<not> ok then Some (False, s1)
         else case getBus b s1 of
           None \<Rightarrow> None
         | Some wire \<Rightarrow>
             (let w1 = wire_beginTransmission p wire a (world s1);
                  w2 = wire_write p wire reg w1;
                  w3 = wire_write p wire (ucast (drop_bit 8 data)) w2;
                  w4 = wire_write p wire (ucast (data AND 0xFF)) w3;
                  (err, w5) = wire_endTransmission p wire True w4;
                  s2 = s1\<lparr>world := w5\<rparr>
              in if err = 0 then Some (True, setError SUCCESS s2)
                 else Some (False, setError (I2CError_of_status err) s2)))"

text \<open>\<^verbatim>\<open>const uint8_t* data, size_t length\<close>: the array behind the pointer is a list
  (\<open>None\<close> for a null pointer), the length a natural number.\<close>

definition writeBytes ::
  "'w platform \<Rightarrow> uint8 \<Rightarrow> uint8 \<Rightarrow> uint8 \<Rightarrow> uint8 list option \<Rightarrow> nat \<Rightarrow> 'w FlexibleI2C \<Rightarrow>
   (bool \<times> 'w FlexibleI2C) option" where
  "writeBytes p b a reg data n s =
     (let (ok, s1) = validateBusAndAddress b a s
      in if \<not> ok \<or> data = None \<or> n = 0 then Some (False, setError INVALID_PARAMETERS s1)
         else case (getBus b s1, data) of
           (Some wire, Some xs) \<Rightarrow>
             if length xs < n then None
             else
               (let w1 = wire_beginTransmission p wire a (world s1);
                    w2 = wire_write p wire reg w1;
                    w3 = fold (wire_write p wire) (take n xs) w2;
                    (err, w4) = wire_endTransmission p wire True w3;
                    s2 = s1\<lparr>world := w4\<rparr>
                in if err = 0 then Some (True, setError SUCCESS s2)
                   else Some (False, setError (I2CError_of_status err) s2))
         | _ \<Rightarrow> None)"

definition readRegister ::
  "'w platform \<Rightarrow> uint8 \<Rightarrow> uint8 \<Rightarrow> uint8 \<Rightarrow> 'w FlexibleI2C \<Rightarrow> (uint8 \<times> 'w FlexibleI2C) option" where
  "readRegister p b a reg s =
     (let (ok, s1) = validateBusAndAddress b a s
      in if \<not> ok then Some (0, s1)
         else case getBus b s1 of
           None \<Rightarrow> None
         | Some wire \<Rightarrow>
             (let w1 = wire_beginTransmission p wire a (world s1);
                  w2 = wire_write p wire reg w1;
                  (err, w3) = wire_endTransmission p wire False w2
              in if err \<noteq> 0 then Some (0, setError (I2CError_of_status err) (s1\<lparr>world := w3\<rparr>))
                 else
                   (let (bytes_received, w4) = wire_requestFrom p wire a 1 1 w3
                    in if bytes_received = 1 then
                         (let (r, w5) = wire_read p wire w4
                          in Some (word_of_int r, setError SUCCESS (s1\<lparr>world := w5\<rparr>)))
                       else Some (0, setError TIMEOUT (s1\<lparr>world := w4\<rparr>)))))"

text \<open>\<^verbatim>\<open>uint16_t result = wire->read() << 8; result |= wire->read();\<close> on the \<^verbatim>\<open>int\<close>
  values that \<^verbatim>\<open>read\<close> returns, each assignment truncating to 16 bits.\<close>

definition readRegister16 ::
  "'w platform \<Rightarrow> uint8 \<Rightarrow> uint8 \<Rightarrow> uint8 \<Rightarrow> 'w FlexibleI2C \<Rightarrow> (uint16 \<times> 'w FlexibleI2C) option" where
  "readRegister16 p b a reg s =
     (let (ok, s1) = validateBusAndAddress b a s
      in if \<not> ok then Some (0, s1)
         else case getBus b s1 of
           None \<Rightarrow> None
         | Some wire \<Rightarrow>
             (let w1 = wire_beginTransmission p wire a (world s1);
                  w2 = wire_write p wire reg w1;
                  (err, w3) = wire_endTransmission p wire False w2
              in if err \<noteq> 0 then Some (0, setError (I2CError_of_status err) (s1\<lparr>world := w3\<rparr>))
                 else
                   (let (bytes_received, w4) = wire_requestFrom p wire a 2 1 w3
                    in if bytes_received = 2 then
                         (let (r1, w5) = wire_read p wire w4;
                              result = (word_of_int (push_bit 8 r1) :: uint16);
                              (r2, w6) = wire_read p wire w5;
                              result' = (word_of_int (uint result OR r2) :: uint16)
                          in Some (result', setError SUCCESS (s1\<lparr>world := w6\<rparr>)))
                       else Some (0, setError TIMEOUT (s1\<lparr>world := w4\<rparr>)))))"

text \<open>\<^verbatim>\<open>for (size_t i = 0; i < length; i++) data[i] = wire->read();\<close>\<close>

function read_loop ::
  "'w platform \<Rightarrow> TwoWire \<Rightarrow> nat \<Rightarrow> nat \<Rightarrow> uint8 list \<Rightarrow> 'w \<Rightarrow> uint8 list \<times> 'w" where
  "read_loop p wire i n buf w =
     (if i < n
      then (let (r, w') = wire_read p wire w
            in read_loop p wire (Suc i) n (buf[i := word_of_int r]) w')
      else (buf, w))"
  by pat_completeness auto
termination
  by (relation "measure (\<lambda>(p, wire, i, n, buf, w). n - i)") auto

declare read_loop.simps [simp del]

text \<open>The caller's array is returned as the call leaves it. The request is for
  \<^verbatim>\<open>(uint8_t)length\<close> bytes, and the count received is compared with \<^verbatim>\<open>length\<close>.\<close>

definition readBytes ::
  "'w platform \<Rightarrow> uint8 \<Rightarrow> uint8 \<Rightarrow> uint8 \<Rightarrow> uint8 list option \<Rightarrow> nat \<Rightarrow> 'w FlexibleI2C \<Rightarrow>
   (bool \<times> uint8 list option \<times> 'w FlexibleI2C) option" where
  "readBytes p b a reg data n s =
     (let (ok, s1) = validateBusAndAddress b a s
      in if \<not> ok \<or> data = None \<or> n = 0 then Some (False, data, setError INVALID_PARAMETERS s1)
         else case (getBus b s1, data) of
           (Some wire, Some buf) \<Rightarrow>
             (let w1 = wire_beginTransmission p wire a (world s1);
                  w2 = wire_write p wire reg w1;
                  (err, w3) = wire_endTransmission p wire False w2
              in if err \<noteq> 0
                 then Some (False, data, setError (I2CError_of_status err) (s1\<lparr>world := w3\<rparr>))
                 else
                   (let (bytes_received, w4) = wire_requestFrom p wire a (of_nat n) 1 w3
                    in if unat bytes_received = n then
                         (if length buf < n then None
                          else
                            (let (buf', w5) = read_loop p wire 0 n buf w4
                             in Some (True, Some buf', setError SUCCESS (s1\<lparr>world := w5\<rparr>))))
                       else Some (False, data, setError TIMEOUT (s1\<lparr>world := w4\<rparr>))))
         | _ \<Rightarrow> None)"

section \<open>Raw operations\<close>

definition beginTransmission ::
  "'w platform \<Rightarrow> uint8 \<Rightarrow> uint8 \<Rightarrow> 'w FlexibleI2C \<Rightarrow> (bool \<times> 'w FlexibleI2C) option" where
  "beginTransmission p b a s =
     (let (ok, s1) = validateBusAndAddress b a s
      in if \<not> ok then Some (False, s1)
         else case getBus b s1 of
           None \<Rightarrow> None
         | Some wire \<Rightarrow> Some (True, s1\<lparr>world := wire_beginTransmission p wire a (world s1)\<rparr>))"

definition endTransmission ::
  "'w platform \<Rightarrow> uint8 \<Rightarrow> bool \<Rightarrow> 'w FlexibleI2C \<Rightarrow> (bool \<times> 'w FlexibleI2C) option" where
  "endTransmission p b stop s =
     (if \<not> isBusInitialized b s then Some (False, setError BUS_NOT_INITIALIZED s)
      else case getBus b s of
        None \<Rightarrow> None
      | Some wire \<Rightarrow>
          (let (err, w1) = wire_endTransmission p wire stop (world s);
               s1 = s\<lparr>world := w1\<rparr>
           in if err = 0 then Some (True, setError SUCCESS s1)
              else Some (False, setError (I2CError_of_status err) s1)))"

definition requestFrom ::
  "'w platform \<Rightarrow> uint8 \<Rightarrow> uint8 \<Rightarrow> uint8 \<Rightarrow> bool \<Rightarrow> 'w FlexibleI2C \<Rightarrow>
   (bool \<times> 'w FlexibleI2C) option" where
  "requestFrom p b a quantity stop s =
     (let (ok, s1) = validateBusAndAddress b a s
      in if \<not> ok then Some (False, s1)
         else case getBus b s1 of
           None \<Rightarrow> None
         | Some wire \<Rightarrow>
             (let (bytes_received, w1) =
                    wire_requestFrom p wire a quantity (if stop then 1 else 0) (world s1)
              in Some (bytes_received = quantity, s1\<lparr>world := w1\<rparr>)))"

definition getErrorString :: "I2CError \<Rightarrow> string" where
  "getErrorString e =
     (case e of
        SUCCESS \<Rightarrow> ''Success''
      | TIMEOUT \<Rightarrow> ''Timeout''
      | NACK_ADDRESS \<Rightarrow> ''NACK on address''
      | NACK_DATA \<Rightarrow> ''NACK on data''
      | OTHER_ERROR \<Rightarrow> ''Other error''
      | BUS_NOT_INITIALIZED \<Rightarrow> ''Bus not initialized''
      | INVALID_PARAMETERS \<Rightarrow> ''Invalid parameters''
      | UNKNOWN_ERROR c \<Rightarrow> ''Unknown error'')"

section \<open>Strings and numbers of the request handlers\<close>

text \<open>Modelled from the spec: the Arduino \<^verbatim>\<open>String\<close> class and the C library's \<^verbatim>\<open>strtol\<close>
  and \<^verbatim>\<open>atol\<close> are not part of the repository. The spec says that address-like parameters
  are hexadecimal strings such as "0x48", that numeric parameters are decimal strings, and
  that whitespace around a token does not count. The definitions follow the documented
  behaviour of these library functions: \<^verbatim>\<open>isspace\<close> of the C locale, \<^verbatim>\<open>strtol\<close> skipping
  leading white space, an optional sign and (base 16) an optional 0x, reading digits up to
  the first character that is none, and saturating at the range of a 32-bit \<^verbatim>\<open>long\<close>.\<close>

definition isspace :: "char \<Rightarrow> bool" where
  "isspace c = (c = CHR '' '' \<or> (9 \<le> (of_char c :: nat) \<and> (of_char c :: nat) \<le> 13))"

definition digit_value :: "char \<Rightarrow> nat option" where
  "digit_value c =
     (let k = (of_char c :: nat)
      in if 48 \<le> k \<and> k \<le> 57 then Some (k - 48)
         else if 97 \<le> k \<and> k \<le> 122 then Some (k - 87)
         else if 65 \<le> k \<and> k \<le> 90 then Some (k - 55)
         else None)"

definition is_digit :: "nat \<Rightarrow> char \<Rightarrow> bool" where
  "is_digit base c = (case digit_value c of None \<Rightarrow> False | Some d \<Rightarrow> d < base)"

definition digits_value :: "nat \<Rightarrow> string \<Rightarrow> int" where
  "digits_value base ds = foldl (\<lambda>acc c. acc * int base + int (the (digit_value c))) 0 ds"

definition strtol :: "string \<Rightarrow> nat \<Rightarrow> int" where
  "strtol str base =
     (let s1 = dropWhile isspace str;
          neg = (s1 \<noteq> [] \<and> hd s1 = CHR ''-'');
          s2 = (if s1 \<noteq> [] \<and> (hd s1 = CHR ''-'' \<or> hd s1 = CHR ''+'') then tl s1 else s1);
          s3 = (if base = 16 \<and> length s2 \<ge> 3 \<and> s2 ! 0 = CHR ''0''
                   \<and> (s2 ! 1 = CHR ''x'' \<or> s2 ! 1 = CHR ''X'') \<and> is_digit 16 (s2 ! 2)
                then drop 2 s2 else s2);
          v = digits_value base (takeWhile (is_digit base) s3);
          r = (if neg then - v else v)
      in if r > 2147483647 then 2147483647
         else if r < - 2147483648 then - 2147483648
         else r)"

text \<open>\<^verbatim>\<open>String::toInt\<close> is \<^verbatim>\<open>atol\<close>, that is \<^verbatim>\<open>strtol\<close> in base 10.\<close>

definition toInt :: "string \<Rightarrow> int" where
  "toInt str = strtol str 10"

text \<open>\<^verbatim>\<open>String::indexOf(ch, fromIndex)\<close>: the index of the first occurrence at or after
  \<open>fromIndex\<close>, or -1.\<close>

definition indexOf :: "string \<Rightarrow> char \<Rightarrow> nat \<Rightarrow> int" where
  "indexOf str ch fromIndex =
     (if fromIndex \<ge> length str then - 1
      else if ch \<in> set (drop fromIndex str)
           then int (fromIndex + length (takeWhile (\<lambda>x. x \<noteq> ch) (drop fromIndex str)))
           else - 1)"

text \<open>\<^verbatim>\<open>String::substring(left, right)\<close> swaps its bounds when they are out of order and
  cuts at the end of the string.\<close>

definition substring :: "string \<Rightarrow> nat \<Rightarrow> nat \<Rightarrow> string" where
  "substring str left right =
     (let l = (if left > right then right else left);
          r = (if left > right then left else right)
      in if l \<ge> length str then []
         else take (min r (length str) - l) (drop l str))"

definition trim :: "string \<Rightarrow> string" where
  "trim str = rev (dropWhile isspace (rev (dropWhile isspace str)))"

text \<open>\<^verbatim>\<open>String(v, HEX)\<close> for a byte: lower-case digits, no leading zero.\<close>

definition hex_char :: "nat \<Rightarrow> char" where
  "hex_char d = (if d < 10 then char_of (48 + d) else char_of (87 + d))"

definition String_HEX :: "uint8 \<Rightarrow> string" where
  "String_HEX v =
     (if unat v < 16 then [hex_char (unat v)]
      else [hex_char (unat v div 16), hex_char (unat v mod 16)])"

section \<open>Request handlers\<close>

text \<open>Modelled from the spec: ArduinoJson is not part of the repository. A response
  document is the list of its members in the order the handler sets them; the body a
  handler returns is that document (the spec: "renders structured responses with a status
  code"), not its serialised text.\<close>

datatype json = JBool bool | JNum int | JStr string

type_synonym response = "(string \<times> json) list \<times> int"

definition handlePingDevice ::
  "'w platform \<Rightarrow> (string \<rightharpoonup> string) \<Rightarrow> 'w FlexibleI2C \<Rightarrow> (response \<times> 'w FlexibleI2C) option" where
  "handlePingDevice p params s =
     (case (params ''bus_id'', params ''device_addr'') of
        (Some bus_str, Some addr_str) \<Rightarrow>
          (let b = (word_of_int (toInt bus_str) :: uint8);
               device_addr = (word_of_int (strtol addr_str 16) :: uint8)
           in case isDevicePresent p b device_addr s of
                None \<Rightarrow> None
              | Some (present, s') \<Rightarrow>
                  Some (([(''success'', JBool True),
                          (''bus_id'', JNum (uint b)),
                          (''device_addr'', JStr (''0x'' @ String_HEX device_addr)),
                          (''present'', JBool present)], 200), s'))
      | _ \<Rightarrow>
          Some (([(''success'', JBool False),
                  (''error'', JStr ''Missing required parameters'')], 400), s))"

text \<open>The response of \<^verbatim>\<open>handlePingDevice\<close> when both parameters are present.\<close>

definition ping_response :: "uint8 \<Rightarrow> uint8 \<Rightarrow> bool \<Rightarrow> response" where
  "ping_response b a present =
     ([(''success'', JBool True),
       (''bus_id'', JNum (uint b)),
       (''device_addr'', JStr (''0x'' @ String_HEX a)),
       (''present'', JBool present)], 200)"

text \<open>The parsing loop of \<^verbatim>\<open>handleWriteBytes\<close>, on its variables \<^verbatim>\<open>start\<close> and \<^verbatim>\<open>end\<close>
  (C \<^verbatim>\<open>int\<close>s that stay between -1 and the length of the string).\<close>

lemma length_takeWhile_occurs:
  "ch \<in> set xs \<Longrightarrow> length (takeWhile (\<lambda>x. x \<noteq> ch) xs) < length xs"
  by (induction xs) auto

lemma indexOf_range:
  "0 \<le> indexOf str ch k \<Longrightarrow> int k \<le> indexOf str ch k \<and> indexOf str ch k < int (length str)"
proof -
  assume nonneg: "0 \<le> indexOf str ch k"
  then have inside: "k < length str" and occurs: "ch \<in> set (drop k str)"
    by (auto simp: indexOf_def split: if_splits)
  have "length (takeWhile (\<lambda>x. x \<noteq> ch) (drop k str)) < length (drop k str)"
    using occurs by (rule length_takeWhile_occurs)
  then show ?thesis
    using inside occurs by (simp add: indexOf_def)
qed

function parse_loop :: "string \<Rightarrow> int \<Rightarrow> int \<Rightarrow> uint8 list \<Rightarrow> uint8 list" where
  "parse_loop data_str start e data_bytes =
     (if e \<ge> 0 \<or> start < int (length data_str) then
        (let byte_str = trim (if e \<ge> 0 then substring data_str (nat start) (nat e)
                              else substring data_str (nat start) (length data_str));
             data_bytes' = (if length byte_str > 0
                            then data_bytes @ [word_of_int (strtol byte_str 16)]
                            else data_bytes)
         in if e < 0 then data_bytes'
            else parse_loop data_str (e + 1) (indexOf data_str CHR '','' (nat (e + 1))) data_bytes')
      else data_bytes)"
  by pat_completeness auto
termination
proof (relation "measure (\<lambda>(data_str, start, e, data_bytes).
                   if e < 0 then 0 else 1 + nat (int (length data_str) - e))")
  show "wf (measure (\<lambda>(data_str :: string, start :: int, e :: int, data_bytes :: uint8 list).
                   if e < 0 then 0 else 1 + nat (int (length data_str) - e)))"
    by simp
next
  fix data_str :: string and start e :: int and data_bytes x xa :: "uint8 list"
  assume "\<not> e < 0"
  then have "0 \<le> e" by simp
  define e' where "e' = indexOf data_str CHR '','' (nat (e + 1))"
  have "e' < 0 \<or> (e + 1 \<le> e' \<and> e' < int (length data_str))"
    using indexOf_range [of data_str "CHR '',''" "nat (e + 1)"] \<open>0 \<le> e\<close>
    by (auto simp: e'_def)
  then show "((data_str, e + 1, indexOf data_str CHR '','' (nat (e + 1)), xa),
              (data_str, start, e, data_bytes))
             \<in> measure (\<lambda>(data_str, start, e, data_bytes).
                   if e < 0 then 0 else 1 + nat (int (length data_str) - e))"
    using \<open>0 \<le> e\<close> by (auto simp: e'_def)
qed

declare parse_loop.simps [simp del]

definition parse_data_bytes :: "string \<Rightarrow> uint8 list" where
  "parse_data_bytes data_str = parse_loop data_str 0 (indexOf data_str CHR '','' 0) []"

definition handleWriteBytes ::
  "'w platform \<Rightarrow> (string \<rightharpoonup> string) \<Rightarrow> 'w FlexibleI2C \<Rightarrow> (response \<times> 'w FlexibleI2C) option" where
  "handleWriteBytes p params s =
     (case (params ''bus_id'', params ''device_addr'', params ''reg_addr'', params ''data'') of
        (Some bus_str, Some addr_str, Some reg_str, Some data_str) \<Rightarrow>
          (let b = (word_of_int (toInt bus_str) :: uint8);
               device_addr = (word_of_int (strtol addr_str 16) :: uint8);
               reg_addr = (word_of_int (strtol reg_str 16) :: uint8);
               data_bytes = parse_data_bytes data_str
           in if data_bytes = [] then
                Some (([(''success'', JBool False),
                        (''error'', JStr ''No valid data bytes provided'')], 400), s)
              else
                (case writeBytes p b device_addr reg_addr (Some data_bytes) (length data_bytes) s of
                   None \<Rightarrow> None
                 | Some (success, s') \<Rightarrow>
                     Some (([(''success'', JBool success),
                             (''bus_id'', JNum (uint b)),
                             (''device_addr'', JStr (''0x'' @ String_HEX device_addr)),
                             (''reg_addr'', JStr (''0x'' @ String_HEX reg_addr)),
                             (''bytes_written'', JNum (int (length data_bytes)))]
                            @ (if \<not> success
                               then [(''error'', JStr (getErrorString (getLastError s')))]
                               else []),
                            if success then 200 else 500), s')))
      | _ \<Rightarrow>
          Some (([(''success'', JBool False),
                  (''error'', JStr ''Missing required parameters'')], 400), s))"

text \<open>The data parameter in the words of the spec: a comma-separated list of tokens, of
  which those that are empty after trimming are skipped and the others are read as hex
  byte literals. \<open>no_data_response\<close> is the handler's answer to an empty list.\<close>

fun split_commas :: "string \<Rightarrow> string list" where
  "split_commas [] = [[]]"
| "split_commas (c # cs) =
     (if c = CHR '','' then [] # split_commas cs
      else (case split_commas cs of [] \<Rightarrow> [[c]] | t # ts \<Rightarrow> (c # t) # ts))"

definition data_tokens :: "string \<Rightarrow> uint8 list" where
  "data_tokens str =
     map (\<lambda>t. word_of_int (strtol t 16)) (filter (\<lambda>t. t \<noteq> []) (map trim (split_commas str)))"

definition no_data_response :: response where
  "no_data_response =
     ([(''success'', JBool False), (''error'', JStr ''No valid data bytes provided'')], 400)"

text \<open>The handler's answer after a call of \<^verbatim>\<open>writeBytes\<close> with \<open>n\<close> bytes that returned
  \<open>success\<close> and left the last error \<open>e\<close>.\<close>

definition write_bytes_response ::
  "uint8 \<Rightarrow> uint8 \<Rightarrow> uint8 \<Rightarrow> nat \<Rightarrow> bool \<Rightarrow> I2CError \<Rightarrow> response" where
  "write_bytes_response b a r n success e =
     ([(''success'', JBool success),
       (''bus_id'', JNum (uint b)),
       (''device_addr'', JStr (''0x'' @ String_HEX a)),
       (''reg_addr'', JStr (''0x'' @ String_HEX r)),
       (''bytes_written'', JNum (int n))]
      @ (if success then [] else [(''error'', JStr (getErrorString e))]),
      if success then 200 else 500)"

section \<open>Test doubles for the bus driver\<close>

text \<open>A probing double: it records every \<^verbatim>\<open>beginTransmission\<close> (bus object and address, in
  order), and \<^verbatim>\<open>endTransmission\<close> answers with the status that the function \<open>st\<close> gives
  for the bus object and the address last begun on it. The clock reads \<open>now\<close>.\<close>

record probe_world =
  begun :: "(TwoWire \<times> uint8) list"
  target :: "TwoWire \<Rightarrow> uint8"
  now :: uint32

definition probe_platform :: "(TwoWire \<Rightarrow> uint8 \<Rightarrow> uint8) \<Rightarrow> probe_world platform" where
  "probe_platform st =
     \<lparr>wire_begin = (\<lambda>wire sda scl freq w. (True, w)),
      wire_beginTransmission =
        (\<lambda>wire a w. w\<lparr>begun := begun w @ [(wire, a)], target := (target w)(wire := a)\<rparr>),
      wire_write = (\<lambda>wire x w. w),
      wire_endTransmission = (\<lambda>wire stop w. (st wire (target w wire), w)),
      wire_requestFrom = (\<lambda>wire a n stop w. (0, w)),
      wire_read = (\<lambda>wire w. (- 1, w)),
      millis = (\<lambda>w. (now w, w))\<rparr>"

text \<open>A double that stores what is written: every attached device has a register file and
  a register pointer. A write transaction sets the pointer from its first byte and stores
  the following bytes at consecutive registers; a read request delivers the registers from
  the pointer on. An address with no device answers status 2 and delivers no byte.\<close>

record sim_world =
  registers :: "TwoWire \<Rightarrow> uint8 \<Rightarrow> (uint8 \<Rightarrow> uint8) option"
  pointer :: "TwoWire \<Rightarrow> uint8 \<Rightarrow> uint8"
  tx_address :: "TwoWire \<Rightarrow> uint8"
  tx_buffer :: "TwoWire \<Rightarrow> uint8 list"
  rx_buffer :: "TwoWire \<Rightarrow> uint8 list"
  ticks :: uint32

fun store_bytes :: "uint8 \<Rightarrow> uint8 list \<Rightarrow> (uint8 \<Rightarrow> uint8) \<Rightarrow> (uint8 \<Rightarrow> uint8)" where
  "store_bytes r [] m = m"
| "store_bytes r (x # xs) m = store_bytes (r + 1) xs (m(r := x))"

definition sim_endTransmission :: "TwoWire \<Rightarrow> bool \<Rightarrow> sim_world \<Rightarrow> uint8 \<times> sim_world" where
  "sim_endTransmission wire stop w =
     (let a = tx_address w wire
      in case registers w wire a of
           None \<Rightarrow> (2, w)
         | Some m \<Rightarrow>
             (case tx_buffer w wire of
                [] \<Rightarrow> (0, w)
              | r # payload \<Rightarrow>
                  (0, w\<lparr>registers := (registers w)(wire := (registers w wire)(a \<mapsto> store_bytes r payload m)),
                        pointer := (pointer w)(wire := (pointer w wire)(a := r + of_nat (length payload)))\<rparr>)))"

definition sim_requestFrom ::
  "TwoWire \<Rightarrow> uint8 \<Rightarrow> uint8 \<Rightarrow> uint8 \<Rightarrow> sim_world \<Rightarrow> uint8 \<times> sim_world" where
  "sim_requestFrom wire a n stop w =
     (case registers w wire a of
        None \<Rightarrow> (0, w\<lparr>rx_buffer := (rx_buffer w)(wire := [])\<rparr>)
      | Some m \<Rightarrow>
          (n, w\<lparr>rx_buffer := (rx_buffer w)(wire := map (\<lambda>i. m (pointer w wire a + of_nat i)) [0..<unat n]),
                pointer := (pointer w)(wire := (pointer w wire)(a := pointer w wire a + n))\<rparr>))"

definition sim_read :: "TwoWire \<Rightarrow> sim_world \<Rightarrow> int \<times> sim_world" where
  "sim_read wire w =
     (case rx_buffer w wire of
        [] \<Rightarrow> (- 1, w)
      | x # xs \<Rightarrow> (uint x, w\<lparr>rx_buffer := (rx_buffer w)(wire := xs)\<rparr>))"

definition sim_platform :: "sim_world platform" where
  "sim_platform =
     \<lparr>wire_begin = (\<lambda>wire sda scl freq w. (True, w)),
      wire_beginTransmission =
        (\<lambda>wire a w. w\<lparr>tx_address := (tx_address w)(wire := a), tx_buffer := (tx_buffer w)(wire := [])\<rparr>),
      wire_write = (\<lambda>wire x w. w\<lparr>tx_buffer := (tx_buffer w)(wire := tx_buffer w wire @ [x])\<rparr>),
      wire_endTransmission = sim_endTransmission,
      wire_requestFrom = sim_requestFrom,
      wire_read = sim_read,
      millis = (\<lambda>w. (ticks w, w))\<rparr>"

text \<open>The world of the storing double after a transaction to address \<open>a\<close> was begun and
  \<open>bytes\<close> were queued, and after its end stored the payload behind register \<open>r\<close> in
  the register file \<open>m\<close>.\<close>

definition sim_sent :: "TwoWire \<Rightarrow> uint8 \<Rightarrow> uint8 list \<Rightarrow> sim_world \<Rightarrow> sim_world" where
  "sim_sent wire a bytes w =
     w\<lparr>tx_address := (tx_address w)(wire := a), tx_buffer := (tx_buffer w)(wire := bytes)\<rparr>"

definition sim_stored :: "TwoWire \<Rightarrow> uint8 \<Rightarrow> uint8 \<Rightarrow> uint8 list \<Rightarrow> (uint8 \<Rightarrow> uint8) \<Rightarrow> sim_world \<Rightarrow> sim_world" where
  "sim_stored wire a r payload m w =
     (sim_sent wire a (r # payload) w)
       \<lparr>registers := (registers w)(wire := (registers w wire)(a \<mapsto> store_bytes r payload m)),
        pointer := (pointer w)(wire := (pointer w wire)(a := r + of_nat (length payload)))\<rparr>"

text \<open>A double that acknowledges every address and delivers one byte less than a read
  request asks for.\<close>

definition short_platform :: "probe_world platform" where
  "short_platform =
     (probe_platform (\<lambda>wire a. 0))\<lparr>wire_requestFrom := (\<lambda>wire a n stop w. (n - 1, w))\<rparr>"

text \<open>A status function for the probing double: only address 0x48 acknowledges.\<close>

definition only_0x48 :: "TwoWire \<Rightarrow> uint8 \<Rightarrow> uint8" where
  "only_0x48 wire a = (if a = 0x48 then 0 else 2)"

text \<open>A status function where 0x48 and 0x50 acknowledge.\<close>

definition both_respond :: "TwoWire \<Rightarrow> uint8 \<Rightarrow> uint8" where
  "both_respond wire a = (if a = 0x48 \<or> a = 0x50 then 0 else 2)"

text \<open>Concrete worlds and states for the examples: a probing world at time 1000, a simulated
  world with one device at address 0x48 of each bus, and the state after the constructor
  and \<^verbatim>\<open>initBus(0, 21, 22, 100000)\<close>.\<close>

definition probe_world0 :: probe_world where
  "probe_world0 = \<lparr>begun = [], target = (\<lambda>wire. 0), now = 1000\<rparr>"

definition sim_world0 :: sim_world where
  "sim_world0 =
     \<lparr>registers = (\<lambda>wire. [0x48 \<mapsto> (\<lambda>r. 0)]), pointer = (\<lambda>wire a. 0),
      tx_address = (\<lambda>wire. 0), tx_buffer = (\<lambda>wire. []), rx_buffer = (\<lambda>wire. []),
      ticks = 1000\<rparr>"

definition bus0_state :: "'w \<Rightarrow> 'w FlexibleI2C" where
  "bus0_state w =
     \<lparr>buses = [0 \<mapsto> \<lparr>sda_pin = 21, scl_pin = 22, frequency = 100000,
                      wire_instance = Some Wire, initialized = True\<rparr>],
      known_devices = [], i2c_timeout = 1000, last_error = SUCCESS, hook_calls = [], world = w\<rparr>"

text \<open>A write-bytes request whose data parameter holds only white space and commas.\<close>

definition blank_request :: "string \<rightharpoonup> string" where
  "blank_request =
     [''bus_id'' \<mapsto> ''0'', ''device_addr'' \<mapsto> ''0x48'', ''reg_addr'' \<mapsto> ''0x00'',
      ''data'' \<mapsto> '' , ,'']"

text \<open>A write-bytes request for three bytes, with a blank and an empty token among them.\<close>

definition three_byte_request :: "string \<rightharpoonup> string" where
  "three_byte_request =
     [''bus_id'' \<mapsto> ''0'', ''device_addr'' \<mapsto> ''0x48'', ''reg_addr'' \<mapsto> ''0x10'',
      ''data'' \<mapsto> ''0x01, 0x02,,0x03'']"

text \<open>The states after three scans of bus 0 on the probing double: first 0x48 and 0x50
  acknowledge (clock 1000), then only 0x48 (clock 2000), then only 0x48 again (clock 3000).\<close>

definition scan1_state :: "probe_world FlexibleI2C" where
  "scan1_state = snd (scanBus (probe_platform both_respond) 0 (bus0_state probe_world0))"

definition scan2_state :: "probe_world FlexibleI2C" where
  "scan2_state =
     snd (scanBus (probe_platform only_0x48) 0 (scan1_state\<lparr>world := probe_world0\<lparr>now := 2000\<rparr>\<rparr>))"

definition scan3_state :: "probe_world FlexibleI2C" where
  "scan3_state =
     snd (scanBus (probe_platform only_0x48) 0 (scan2_state\<lparr>world := probe_world0\<lparr>now := 3000\<rparr>\<rparr>))"

section \<open>Descriptions used in the statements about scanning\<close>

text \<open>The candidate addresses of the sweep, 1 to 126.\<close>

definition scan_addresses :: "uint8 list" where
  "scan_addresses = map of_nat [1..<127]"

text \<open>What \<^verbatim>\<open>beginTransmission\<close> does to the world of the probing double.\<close>

definition probe :: "TwoWire \<Rightarrow> uint8 \<Rightarrow> probe_world \<Rightarrow> probe_world" where
  "probe wire a w = w\<lparr>begun := begun w @ [(wire, a)], target := (target w)(wire := a)\<rparr>"

text \<open>The directory operations in the words of the spec: \<open>recordResponse\<close> upserts the
  record of (bus, address) (responsive, last seen now; a new record gets the default name),
  and a record is \<open>unseen\<close> by a scan of its bus when it was responsive and its address is
  not among the observed ones. \<open>device_record\<close> is a record with the default name.\<close>

definition device_record :: "uint8 \<Rightarrow> uint8 \<Rightarrow> bool \<Rightarrow> uint32 \<Rightarrow> I2CDeviceInfo" where
  "device_record b a r t =
     \<lparr>address = a, bus_id = b, device_name = ''Unknown Device'', responsive = r, last_seen = t\<rparr>"

fun refresh :: "uint8 \<Rightarrow> uint8 \<Rightarrow> uint32 \<Rightarrow> I2CDeviceInfo list \<Rightarrow> I2CDeviceInfo list" where
  "refresh b a t [] = []"
| "refresh b a t (d # ds) =
     (if address d = a \<and> bus_id d = b then d\<lparr>responsive := True, last_seen := t\<rparr> # ds
      else d # refresh b a t ds)"

definition recordResponse :: "uint8 \<Rightarrow> uint32 \<Rightarrow> uint8 \<Rightarrow> I2CDeviceInfo list \<Rightarrow> I2CDeviceInfo list" where
  "recordResponse b t a ds =
     (if \<exists>d \<in> set ds. address d = a \<and> bus_id d = b then refresh b a t ds
      else ds @ [\<lparr>address = a, bus_id = b, device_name = ''Unknown Device'',
                  responsive = True, last_seen = t\<rparr>])"

definition unseen :: "uint8 \<Rightarrow> uint8 list \<Rightarrow> I2CDeviceInfo \<Rightarrow> bool" where
  "unseen b found d = (bus_id d = b \<and> address d \<notin> set found \<and> responsive d)"

section \<open>Facts about validation\<close>

lemma setError_simps:
  "last_error (setError e s) = e"
  "world (setError e s) = world s"
  "buses (setError e s) = buses s"
  "known_devices (setError e s) = known_devices s"
  "hook_calls (setError e s) = hook_calls s"
  by (simp_all add: setError_def)

lemma validate_uninitialized:
  "\<not> isBusInitialized b s \<Longrightarrow>
   validateBusAndAddress b a s = (False, setError BUS_NOT_INITIALIZED s)"
  by (simp add: validateBusAndAddress_def)

lemma validate_bad_address:
  "isBusInitialized b s \<Longrightarrow> a = 0 \<or> 127 < a \<Longrightarrow>
   validateBusAndAddress b a s = (False, setError INVALID_PARAMETERS s)"
  by (simp add: validateBusAndAddress_def)

lemma validate_good_address:
  "isBusInitialized b s \<Longrightarrow> 1 \<le> a \<Longrightarrow> a \<le> 127 \<Longrightarrow> validateBusAndAddress b a s = (True, s)"
  by (auto simp: validateBusAndAddress_def word_le_nat_alt word_less_nat_alt)

lemma setError_twice: "setError e (setError e' s) = setError e s"
  by (simp add: setError_def)

lemma rejected_ops:
  assumes v: "validateBusAndAddress b a s = (False, s1)"
  shows "writeRegister p b a reg v8 s = Some (False, s1)"
    and "writeRegister16 p b a reg v16 s = Some (False, s1)"
    and "writeBytes p b a reg data n s = Some (False, setError INVALID_PARAMETERS s1)"
    and "readRegister p b a reg s = Some (0, s1)"
    and "readRegister16 p b a reg s = Some (0, s1)"
    and "readBytes p b a reg data n s = Some (False, data, setError INVALID_PARAMETERS s1)"
    and "isDevicePresent p b a s = Some (False, s1)"
    and "beginTransmission p b a s = Some (False, s1)"
    and "requestFrom p b a q stop s = Some (False, s1)"
  using v
  by (simp_all add: writeRegister_def writeRegister16_def writeBytes_def readRegister_def
      readRegister16_def readBytes_def isDevicePresent_def beginTransmission_def requestFrom_def)

lemma initBus_bad_id: "1 < b \<Longrightarrow> initBus p b sda scl freq s = (False, setError INVALID_PARAMETERS s)"
  by (simp add: initBus_def)

lemma initBus_other_slots:
  "b' \<noteq> b \<Longrightarrow> buses (snd (initBus p b sda scl freq s)) b' = buses s b'"
  by (auto simp: initBus_def Let_def setError_def split: prod.splits)

lemma initBus_high_slots:
  "1 < b' \<Longrightarrow> buses (snd (initBus p b sda scl freq s)) b' = buses s b'"
  by (cases "b' = b") (simp_all add: initBus_other_slots initBus_bad_id setError_def)

text \<open>C6. On an initialized bus, every register-level operation called with device address
  0 or an address of 128 and above fails with last error \<open>INVALID_PARAMETERS\<close>. The state
  returned is the state before with only the error code set, whatever the platform \<open>p\<close>
  is: the outside world is as it was, so no primitive of the driver has run. Addresses 1
  to 127 pass the validation. \<^verbatim>\<open>initBus\<close> with a bus id above 1 fails with
  \<open>INVALID_PARAMETERS\<close> and changes nothing else, and no call of \<^verbatim>\<open>initBus\<close> changes
  the registry at an id above 1.\<close>

theorem invalid_address_rejected:
  "(isBusInitialized b s \<and> (a = 0 \<or> 127 < a) \<longrightarrow>
      writeRegister p b a reg v8 s = Some (False, setError INVALID_PARAMETERS s)
    \<and> writeRegister16 p b a reg v16 s = Some (False, setError INVALID_PARAMETERS s)
    \<and> writeBytes p b a reg data n s = Some (False, setError INVALID_PARAMETERS s)
    \<and> readRegister p b a reg s = Some (0, setError INVALID_PARAMETERS s)
    \<and> readRegister16 p b a reg s = Some (0, setError INVALID_PARAMETERS s)
    \<and> readBytes p b a reg data n s = Some (False, data, setError INVALID_PARAMETERS s)
    \<and> isDevicePresent p b a s = Some (False, setError INVALID_PARAMETERS s)
    \<and> beginTransmission p b a s = Some (False, setError INVALID_PARAMETERS s)
    \<and> requestFrom p b a q stop s = Some (False, setError INVALID_PARAMETERS s))
   \<and> (isBusInitialized b s \<and> 1 \<le> a \<and> a \<le> 127 \<longrightarrow> validateBusAndAddress b a s = (True, s))
   \<and> (1 < b \<longrightarrow> initBus p b sda scl freq s = (False, setError INVALID_PARAMETERS s))
   \<and> (1 < b' \<longrightarrow> buses (snd (initBus p b sda scl freq s)) b' = buses s b')"
proof -
  have bad: "isBusInitialized b s \<and> (a = 0 \<or> 127 < a) \<Longrightarrow>
      validateBusAndAddress b a s = (False, setError INVALID_PARAMETERS s)"
    by (simp add: validate_bad_address)
  show ?thesis
    using rejected_ops [OF bad, of p] validate_good_address [of b s a]
      initBus_bad_id [of b p] initBus_high_slots [of b' p b]
    by (simp add: setError_twice)
qed

theorem invalid_address_rejected_witness:
  "writeRegister sim_platform 0 200 0 0 (bus0_state sim_world0)
     = Some (False, setError INVALID_PARAMETERS (bus0_state sim_world0))
   \<and> writeRegister16 sim_platform 0 200 0 0 (bus0_state sim_world0)
     = Some (False, setError INVALID_PARAMETERS (bus0_state sim_world0))
   \<and> writeBytes sim_platform 0 200 0 (Some [1]) 1 (bus0_state sim_world0)
     = Some (False, setError INVALID_PARAMETERS (bus0_state sim_world0))
   \<and> readRegister sim_platform 0 200 0 (bus0_state sim_world0)
     = Some (0, setError INVALID_PARAMETERS (bus0_state sim_world0))
   \<and> readRegister16 sim_platform 0 200 0 (bus0_state sim_world0)
     = Some (0, setError INVALID_PARAMETERS (bus0_state sim_world0))
   \<and> readBytes sim_platform 0 200 0 (Some [1]) 1 (bus0_state sim_world0)
     = Some (False, Some [1], setError INVALID_PARAMETERS (bus0_state sim_world0))
   \<and> isDevicePresent sim_platform 0 200 (bus0_state sim_world0)
     = Some (False, setError INVALID_PARAMETERS (bus0_state sim_world0))
   \<and> beginTransmission sim_platform 0 200 (bus0_state sim_world0)
     = Some (False, setError INVALID_PARAMETERS (bus0_state sim_world0))
   \<and> requestFrom sim_platform 0 200 1 True (bus0_state sim_world0)
     = Some (False, setError INVALID_PARAMETERS (bus0_state sim_world0))
   \<and> validateBusAndAddress 0 127 (bus0_state sim_world0) = (True, bus0_state sim_world0)
   \<and> initBus sim_platform 2 21 22 100000 (bus0_state sim_world0)
     = (False, setError INVALID_PARAMETERS (bus0_state sim_world0))
   \<and> buses (snd (initBus sim_platform 2 21 22 100000 (bus0_state sim_world0))) 2 = None"
proof -
  have init: "isBusInitialized 0 (bus0_state sim_world0)"
    by (simp add: isBusInitialized_def bus0_state_def)
  have none: "buses (bus0_state sim_world0) 2 = None"
    by (simp add: bus0_state_def)
  show ?thesis
    using init none
      invalid_address_rejected [of 0 "bus0_state sim_world0" 200 sim_platform 0 0 0 "Some [1]" 1
        1 True 21 22 100000 2]
      invalid_address_rejected [of 0 "bus0_state sim_world0" 127 sim_platform 0 0 0 "Some [1]" 1
        1 True 21 22 100000 2]
      invalid_address_rejected [of 2 "bus0_state sim_world0" 127 sim_platform 0 0 0 "Some [1]" 1
        1 True 21 22 100000 2]
    by (simp add: setError_simps)
qed

lemma initBus_already:
  "b \<le> 1 \<Longrightarrow> isBusInitialized b s \<Longrightarrow> initBus p b sda scl freq s = (True, s)"
  by (simp add: initBus_def isBusInitialized_def not_less [symmetric])

lemma initBus_success:
  assumes "initBus p b sda scl freq s = (True, s1)"
  shows "b \<le> 1 \<and> isBusInitialized b s1
       \<and> (\<not> isBusInitialized b s \<longrightarrow>
            buses s1 b = Some \<lparr>sda_pin = sda, scl_pin = scl, frequency = freq,
                                wire_instance = Some (if b = 0 then Wire else Wire1),
                                initialized = True\<rparr>)"
proof (cases "1 < b")
  case True
  with assms show ?thesis by (simp add: initBus_def)
next
  case small: False
  show ?thesis
  proof (cases "isBusInitialized b s")
    case True
    with assms small show ?thesis
      by (simp add: initBus_def isBusInitialized_def)
  next
    case False
    obtain success w' where hw: "wire_begin p (if b = 0 then Wire else Wire1) sda scl freq (world s)
        = (success, w')"
      by (cases "wire_begin p (if b = 0 then Wire else Wire1) sda scl freq (world s)")
    with assms small False show ?thesis
      by (cases success) (auto simp: initBus_def isBusInitialized_def setError_def)
  qed
qed

text \<open>C5. After a call of \<^verbatim>\<open>initBus\<close> on bus \<open>b\<close> that returned true, the bus id is 0
  or 1 and the bus is initialized; if it was not before, the slot stored holds the pins,
  frequency and handle of that call. On any state in which bus \<open>b\<close> (0 or 1) is
  initialized, in particular right after the first call, \<^verbatim>\<open>initBus\<close> with any pins and
  frequency (and any platform) returns true and leaves the whole state as it was: the
  stored slot is unchanged and the outside world is untouched, so \<^verbatim>\<open>begin\<close> has not run
  again. (No other operation changes the registry: see the last section.)\<close>

theorem initBus_idempotent:
  "(initBus p b sda1 scl1 f1 s = (True, s1) \<longrightarrow>
      initBus p' b sda2 scl2 f2 s1 = (True, s1) \<and> b \<le> 1 \<and> isBusInitialized b s1
      \<and> (\<not> isBusInitialized b s \<longrightarrow>
           buses s1 b = Some \<lparr>sda_pin = sda1, scl_pin = scl1, frequency = f1,
                               wire_instance = Some (if b = 0 then Wire else Wire1),
                               initialized = True\<rparr>))
   \<and> (b \<le> 1 \<and> isBusInitialized b s \<longrightarrow> initBus p' b sda2 scl2 f2 s = (True, s))"
  using initBus_success [of p b sda1 scl1 f1 s s1] initBus_already [of b s1 p' sda2 scl2 f2]
    initBus_already [of b s p' sda2 scl2 f2]
  by blast

theorem initBus_idempotent_witness:
  "initBus sim_platform 0 21 22 100000 (FlexibleI2C_new sim_world0) = (True, bus0_state sim_world0)
   \<and> initBus sim_platform 0 4 5 400000 (bus0_state sim_world0) = (True, bus0_state sim_world0)
   \<and> initBus sim_platform 0 13 14 50000 (bus0_state sim_world0) = (True, bus0_state sim_world0)
   \<and> buses (bus0_state sim_world0) 0
       = Some \<lparr>sda_pin = 21, scl_pin = 22, frequency = 100000,
                wire_instance = Some Wire, initialized = True\<rparr>"
proof -
  have first: "initBus sim_platform 0 21 22 100000 (FlexibleI2C_new sim_world0)
                = (True, bus0_state sim_world0)"
    by (simp add: initBus_def FlexibleI2C_new_def bus0_state_def sim_platform_def setError_def)
  have fresh: "\<not> isBusInitialized 0 (FlexibleI2C_new sim_world0)"
    by (simp add: isBusInitialized_def FlexibleI2C_new_def)
  have ready: "(0 :: uint8) \<le> 1 \<and> isBusInitialized 0 (bus0_state sim_world0)"
    by (simp add: isBusInitialized_def bus0_state_def)
  show ?thesis
    using first fresh ready
      initBus_idempotent [where p = sim_platform and b = 0 and ?sda1.0 = 21 and ?scl1.0 = 22
        and ?f1.0 = 100000 and s = "FlexibleI2C_new sim_world0" and ?s1.0 = "bus0_state sim_world0"
        and p' = sim_platform and ?sda2.0 = 4 and ?scl2.0 = 5 and ?f2.0 = 400000]
      initBus_idempotent [where p = sim_platform and b = 0 and ?sda1.0 = 21 and ?scl1.0 = 22
        and ?f1.0 = 100000 and s = "bus0_state sim_world0" and ?s1.0 = "bus0_state sim_world0"
        and p' = sim_platform and ?sda2.0 = 13 and ?scl2.0 = 14 and ?f2.0 = 50000]
    by simp
qed

section \<open>Operations on an uninitialized bus\<close>

lemma uninitialized_ops:
  assumes "\<not> isBusInitialized b s"
  shows "writeRegister p b a reg v8 s = Some (False, setError BUS_NOT_INITIALIZED s)"
    and "writeRegister16 p b a reg v16 s = Some (False, setError BUS_NOT_INITIALIZED s)"
    and "readRegister p b a reg s = Some (0, setError BUS_NOT_INITIALIZED s)"
    and "readRegister16 p b a reg s = Some (0, setError BUS_NOT_INITIALIZED s)"
    and "isDevicePresent p b a s = Some (False, setError BUS_NOT_INITIALIZED s)"
    and "beginTransmission p b a s = Some (False, setError BUS_NOT_INITIALIZED s)"
    and "requestFrom p b a q stop s = Some (False, setError BUS_NOT_INITIALIZED s)"
    and "writeBytes p b a reg data n s = Some (False, setError INVALID_PARAMETERS s)"
    and "readBytes p b a reg data n s = Some (False, data, setError INVALID_PARAMETERS s)"
  using rejected_ops [OF validate_uninitialized [OF assms], of p]
  by (simp_all add: setError_twice)

text \<open>C1. The lemma above gives what each register-level operation does on a bus that is
  not initialized: seven of them fail with \<open>BUS_NOT_INITIALIZED\<close>, but \<^verbatim>\<open>writeBytes\<close> and
  \<^verbatim>\<open>readBytes\<close> overwrite that code with \<open>INVALID_PARAMETERS\<close>. Here on bus 1, which the
  example state has not initialized, with a valid address, array and length.\<close>

theorem multi_byte_ops_on_uninitialized_bus:
  "\<not> isBusInitialized 1 (bus0_state sim_world0)
   \<and> map_option (\<lambda>(ok, s). (ok, getLastError s))
        (writeBytes sim_platform 1 0x48 0 (Some [1]) 1 (bus0_state sim_world0))
       = Some (False, INVALID_PARAMETERS)
   \<and> map_option (\<lambda>(ok, buf, s). (ok, getLastError s))
        (readBytes sim_platform 1 0x48 0 (Some [0]) 1 (bus0_state sim_world0))
       = Some (False, INVALID_PARAMETERS)
   \<and> map_option (\<lambda>(ok, s). (ok, getLastError s))
        (writeRegister sim_platform 1 0x48 0 1 (bus0_state sim_world0))
       = Some (False, BUS_NOT_INITIALIZED)"
proof -
  have uninit: "\<not> isBusInitialized 1 (bus0_state sim_world0)"
    by (simp add: isBusInitialized_def bus0_state_def)
  show ?thesis
    using uninit uninitialized_ops [OF uninit, of sim_platform]
    by (simp add: getLastError_def setError_simps)
qed

theorem multi_byte_ops_on_uninitialized_bus_witness:
  "map_option (\<lambda>(ok, s). getLastError s = BUS_NOT_INITIALIZED)
     (writeBytes sim_platform 1 0x48 0 (Some [1]) 1 (bus0_state sim_world0)) = Some False
   \<and> map_option (\<lambda>(ok, buf, s). getLastError s = BUS_NOT_INITIALIZED)
     (readBytes sim_platform 1 0x48 0 (Some [0]) 1 (bus0_state sim_world0)) = Some False"
  using multi_byte_ops_on_uninitialized_bus
  by (cases "writeBytes sim_platform 1 0x48 0 (Some [1]) 1 (bus0_state sim_world0)";
      cases "readBytes sim_platform 1 0x48 0 (Some [0]) 1 (bus0_state sim_world0)") auto

section \<open>The last-error field\<close>

lemma passing_ops_keep_last_error:
  assumes "validateBusAndAddress b a s = (True, s)"
  shows "isDevicePresent p b a s = Some (r, s') \<Longrightarrow> last_error s' = last_error s"
    and "beginTransmission p b a s = Some (r, s') \<Longrightarrow> last_error s' = last_error s"
    and "requestFrom p b a q stop s = Some (r, s') \<Longrightarrow> last_error s' = last_error s"
  using assms
  by (auto simp: isDevicePresent_def beginTransmission_def requestFrom_def Let_def
      split: option.splits prod.splits)

text \<open>C2. Calls that return without writing the last-error field. A read from address
  0x49, where the simulated bus has no device, leaves \<open>NACK_ADDRESS\<close>; a successful probe
  of 0x48 and a repeated \<^verbatim>\<open>initBus(0, ...)\<close> after it both return true and leave
  \<open>NACK_ADDRESS\<close> in place. On the fresh state, \<^verbatim>\<open>requestFrom\<close> at 0x49 returns false
  and the last error still reads \<open>SUCCESS\<close>. (The operations that do write the field on
  every path are in the last section.)\<close>

theorem stale_last_error:
  "(case readRegister sim_platform 0 0x49 0 (bus0_state sim_world0) of
      None \<Rightarrow> False
    | Some (v, s1) \<Rightarrow>
        getLastError s1 = NACK_ADDRESS
        \<and> map_option (\<lambda>(ok, s). (ok, getLastError s)) (isDevicePresent sim_platform 0 0x48 s1)
            = Some (True, NACK_ADDRESS)
        \<and> map_prod id getLastError (initBus sim_platform 0 21 22 100000 s1)
            = (True, NACK_ADDRESS))
   \<and> map_option (\<lambda>(ok, s). (ok, getLastError s))
        (requestFrom sim_platform 0 0x49 1 True (bus0_state sim_world0))
       = Some (False, SUCCESS)"
  by (auto simp: readRegister_def isDevicePresent_def requestFrom_def initBus_def
      validateBusAndAddress_def isBusInitialized_def getBus_def bus0_state_def
      sim_platform_def sim_endTransmission_def sim_requestFrom_def sim_world0_def
      Let_def I2CError_of_status_def setError_def getLastError_def)

section \<open>Short reads\<close>

lemma readBytes_short:
  assumes "validateBusAndAddress b a s = (True, s)" and "getBus b s = Some wire" and "n \<noteq> 0"
    and "wire_endTransmission p wire False
           (wire_write p wire reg (wire_beginTransmission p wire a (world s))) = (0, w3)"
    and "wire_requestFrom p wire a (of_nat n) 1 w3 = (cnt, w4)"
    and "unat cnt \<noteq> n"
  shows "readBytes p b a reg (Some buf) n s = Some (False, Some buf, setError TIMEOUT (s\<lparr>world := w4\<rparr>))"
  using assms by (simp add: readBytes_def Let_def)

lemma readRegister_short:
  assumes "validateBusAndAddress b a s = (True, s)" and "getBus b s = Some wire"
    and "wire_endTransmission p wire False
           (wire_write p wire reg (wire_beginTransmission p wire a (world s))) = (0, w3)"
    and "wire_requestFrom p wire a 1 1 w3 = (cnt, w4)"
    and "cnt \<noteq> 1"
  shows "readRegister p b a reg s = Some (0, setError TIMEOUT (s\<lparr>world := w4\<rparr>))"
  using assms by (simp add: readRegister_def Let_def)

lemma readRegister16_short:
  assumes "validateBusAndAddress b a s = (True, s)" and "getBus b s = Some wire"
    and "wire_endTransmission p wire False
           (wire_write p wire reg (wire_beginTransmission p wire a (world s))) = (0, w3)"
    and "wire_requestFrom p wire a 2 1 w3 = (cnt, w4)"
    and "cnt \<noteq> 2"
  shows "readRegister16 p b a reg s = Some (0, setError TIMEOUT (s\<lparr>world := w4\<rparr>))"
  using assms by (simp add: readRegister16_def Let_def)

lemma readBytes_full:
  assumes "validateBusAndAddress b a s = (True, s)" and "getBus b s = Some wire" and "n \<noteq> 0"
    and "wire_endTransmission p wire False
           (wire_write p wire reg (wire_beginTransmission p wire a (world s))) = (0, w3)"
    and "wire_requestFrom p wire a (of_nat n) 1 w3 = (cnt, w4)"
    and "unat cnt = n"
  shows "readBytes p b a reg (Some buf) n s =
           (if length buf < n then None
            else Some (True, Some (fst (read_loop p wire 0 n buf w4)),
                       setError SUCCESS (s\<lparr>world := snd (read_loop p wire 0 n buf w4)\<rparr>)))"
  using assms by (simp add: readBytes_def Let_def case_prod_beta)

lemma readBytes_zero:
  "readBytes p b a reg data 0 s = Some (ok, out, s') \<Longrightarrow> \<not> ok \<and> out = data"
  by (simp add: readBytes_def case_prod_beta)

lemma readBytes_success_count:
  assumes v: "validateBusAndAddress b a s = (True, s)" and g: "getBus b s = Some wire"
    and e: "wire_endTransmission p wire False
           (wire_write p wire reg (wire_beginTransmission p wire a (world s))) = (0, w3)"
    and r: "wire_requestFrom p wire a (of_nat n) 1 w3 = (cnt, w4)"
    and res: "readBytes p b a reg (Some buf) n s = Some (ok, out, s')"
    and chg: "ok \<or> out \<noteq> Some buf"
  shows "ok \<and> unat cnt = n \<and> last_error s' = SUCCESS"
proof (cases "n = 0")
  case True
  then show ?thesis using res chg readBytes_zero [of p b a reg "Some buf" s ok out s'] by simp
next
  case n: False
  show ?thesis
  proof (cases "unat cnt = n")
    case False
    then show ?thesis using readBytes_short [OF v g n e r, of buf] res chg by simp
  next
    case True
    then show ?thesis
      using readBytes_full [OF v g n e r, of buf] res
      by (simp add: setError_simps split: if_splits)
  qed
qed

text \<open>C4. A read that has passed validation (bus initialized with its handle, address in
  1 to 127, a non-null array, a length that is not zero) and whose register address was
  acknowledged: when \<^verbatim>\<open>requestFrom\<close> delivers a count different from the length asked for,
  \<^verbatim>\<open>readBytes\<close> returns false with last error \<open>TIMEOUT\<close> and the caller's array is as it
  was. Whenever \<^verbatim>\<open>readBytes\<close> returns true or a changed array, exactly \<open>n\<close> bytes were
  received (and the call succeeded). \<^verbatim>\<open>readRegister\<close> and \<^verbatim>\<open>readRegister16\<close> return 0
  with \<open>TIMEOUT\<close> when the count is not 1, respectively not 2.\<close>

theorem short_read_is_timeout:
  assumes "isBusInitialized b s" and "1 \<le> a" and "a \<le> 127" and "getBus b s = Some wire"
    and "wire_endTransmission p wire False
           (wire_write p wire reg (wire_beginTransmission p wire a (world s))) = (0, w3)"
  shows "(n \<noteq> 0 \<and> wire_requestFrom p wire a (of_nat n) 1 w3 = (cnt, w4) \<and> unat cnt \<noteq> n \<longrightarrow>
            readBytes p b a reg (Some buf) n s
              = Some (False, Some buf, setError TIMEOUT (s\<lparr>world := w4\<rparr>)))
       \<and> (wire_requestFrom p wire a (of_nat n) 1 w3 = (cnt, w4)
            \<and> readBytes p b a reg (Some buf) n s = Some (ok, out, s') \<and> (ok \<or> out \<noteq> Some buf) \<longrightarrow>
            ok \<and> unat cnt = n \<and> last_error s' = SUCCESS)
       \<and> (wire_requestFrom p wire a 1 1 w3 = (cnt, w4) \<and> cnt \<noteq> 1 \<longrightarrow>
            readRegister p b a reg s = Some (0, setError TIMEOUT (s\<lparr>world := w4\<rparr>)))
       \<and> (wire_requestFrom p wire a 2 1 w3 = (cnt, w4) \<and> cnt \<noteq> 2 \<longrightarrow>
            readRegister16 p b a reg s = Some (0, setError TIMEOUT (s\<lparr>world := w4\<rparr>)))"
proof -
  have v: "validateBusAndAddress b a s = (True, s)"
    using assms(1-3) by (rule validate_good_address)
  note hw = assms(4,5)
  show ?thesis
  proof (intro conjI impI)
    assume "n \<noteq> 0 \<and> wire_requestFrom p wire a (of_nat n) 1 w3 = (cnt, w4) \<and> unat cnt \<noteq> n"
    then show "readBytes p b a reg (Some buf) n s
                 = Some (False, Some buf, setError TIMEOUT (s\<lparr>world := w4\<rparr>))"
      using readBytes_short [OF v hw(1) _ hw(2)] by simp
  next
    assume h: "wire_requestFrom p wire a (of_nat n) 1 w3 = (cnt, w4)
        \<and> readBytes p b a reg (Some buf) n s = Some (ok, out, s') \<and> (ok \<or> out \<noteq> Some buf)"
    then have "ok \<and> unat cnt = n \<and> last_error s' = SUCCESS"
      using readBytes_success_count [OF v hw, of n cnt w4 buf ok out s'] by simp
    then show "ok" and "unat cnt = n" and "last_error s' = SUCCESS"
      by simp_all
  next
    assume "wire_requestFrom p wire a 1 1 w3 = (cnt, w4) \<and> cnt \<noteq> 1"
    then show "readRegister p b a reg s = Some (0, setError TIMEOUT (s\<lparr>world := w4\<rparr>))"
      using readRegister_short [OF v hw] by simp
  next
    assume "wire_requestFrom p wire a 2 1 w3 = (cnt, w4) \<and> cnt \<noteq> 2"
    then show "readRegister16 p b a reg s = Some (0, setError TIMEOUT (s\<lparr>world := w4\<rparr>))"
      using readRegister16_short [OF v hw] by simp
  qed
qed

theorem short_read_is_timeout_witness:
  "map_option (\<lambda>(ok, buf, s). (ok, buf, getLastError s))
      (readBytes short_platform 0 0x48 0 (Some [9, 9, 9, 9]) 4 (bus0_state probe_world0))
     = Some (False, Some [9, 9, 9, 9], TIMEOUT)
   \<and> map_option (\<lambda>(v, s). (v, getLastError s))
      (readRegister short_platform 0 0x48 0 (bus0_state probe_world0)) = Some (0, TIMEOUT)
   \<and> map_option (\<lambda>(v, s). (v, getLastError s))
      (readRegister16 short_platform 0 0x48 0 (bus0_state probe_world0)) = Some (0, TIMEOUT)
   \<and> map_option (\<lambda>(ok, buf, s). (ok, buf, getLastError s))
      (readBytes sim_platform 0 0x48 0 (Some [9, 9]) 2 (bus0_state sim_world0))
     = Some (True, Some [0, 0], SUCCESS)"
proof -
  let ?s = "bus0_state probe_world0"
  let ?w3 = "probe_world0\<lparr>begun := [(Wire, 0x48)], target := (\<lambda>wire. 0)(Wire := 0x48)\<rparr>"
  have init: "isBusInitialized 0 ?s" and bus: "getBus 0 ?s = Some Wire"
    by (simp_all add: isBusInitialized_def getBus_def bus0_state_def)
  have lo: "(1 :: uint8) \<le> 0x48" and hi: "(0x48 :: uint8) \<le> 127"
    by simp_all
  have tx: "wire_endTransmission short_platform Wire False
              (wire_write short_platform Wire 0
                 (wire_beginTransmission short_platform Wire 0x48 (world ?s))) = (0, ?w3)"
    by (simp add: short_platform_def probe_platform_def bus0_state_def probe_world0_def)
  have rq4: "wire_requestFrom short_platform Wire 0x48 (of_nat 4) 1 ?w3 = (3, ?w3)"
    and rq1: "wire_requestFrom short_platform Wire 0x48 1 1 ?w3 = (0, ?w3)"
    and rq2: "wire_requestFrom short_platform Wire 0x48 2 1 ?w3 = (1, ?w3)"
    by (simp_all add: short_platform_def probe_platform_def)
  note short4 = short_read_is_timeout [OF init lo hi bus tx, of 4 3 ?w3 "[9, 9, 9, 9]"]
  note short1 = short_read_is_timeout [OF init lo hi bus tx, of 4 0 ?w3]
  note short2 = short_read_is_timeout [OF init lo hi bus tx, of 4 1 ?w3]
  let ?t = "bus0_state sim_world0"
  let ?tx = "wire_endTransmission sim_platform Wire False
              (wire_write sim_platform Wire 0
                 (wire_beginTransmission sim_platform Wire 0x48 (world ?t)))"
  let ?rq = "wire_requestFrom sim_platform Wire 0x48 (of_nat 2) 1 (snd ?tx)"
  have init': "isBusInitialized 0 ?t" and bus': "getBus 0 ?t = Some Wire"
    by (simp_all add: isBusInitialized_def getBus_def bus0_state_def)
  have tx': "?tx = (0, snd ?tx)"
    by (simp add: sim_platform_def sim_endTransmission_def bus0_state_def sim_world0_def)
  have "map_option (\<lambda>(ok, buf, s). (ok, buf))
          (readBytes sim_platform 0 0x48 0 (Some [9, 9]) 2 ?t) = Some (True, Some [0, 0])"
    by code_simp
  then obtain s' where full: "readBytes sim_platform 0 0x48 0 (Some [9, 9]) 2 ?t
      = Some (True, Some [0, 0], s')"
    by (cases "readBytes sim_platform 0 0x48 0 (Some [9, 9]) 2 ?t") auto
  have rq': "?rq = (fst ?rq, snd ?rq)"
    by simp
  note ok = short_read_is_timeout [OF init' lo hi bus' tx',
      of 2 "fst ?rq" "snd ?rq" "[9, 9]" True "Some [0, 0]" s']
  have "last_error s' = SUCCESS"
    using ok rq' full by simp
  then show ?thesis
    using short4 short1 short2 rq4 rq1 rq2 full
    by (simp add: getLastError_def setError_simps)
qed

section \<open>The sweep of scanBus\<close>

lemma word_succ_below:
  fixes a :: uint8
  assumes "a < 127"
  shows "unat (a + 1) = Suc (unat a)"
  using assms by (simp add: word_less_nat_alt unat_word_ariths)

lemma scan_loop_fold:
  "a \<le> 127 \<Longrightarrow>
   scan_loop p wire b a acc = fold (scan_body p wire b) (map of_nat [unat a..<127]) acc"
proof (induction p wire b a acc rule: scan_loop.induct)
  case (1 p wire b a acc)
  show ?case
  proof (cases "a < 127")
    case True
    then have nxt: "unat (a + 1) = Suc (unat a)" by (rule word_succ_below)
    from True have lt: "unat a < 127" by (simp add: word_less_nat_alt)
    then have le: "a + 1 \<le> 127" using nxt by (simp add: word_le_nat_alt)
    have "[unat a..<127] = unat a # [unat (a + 1)..<127]"
      using lt nxt by (simp add: upt_conv_Cons)
    then show ?thesis
      using True "1.IH" [OF True le] by (subst scan_loop.simps) simp
  next
    case False
    with "1.prems" have "a = 127" by simp
    then show ?thesis by (subst scan_loop.simps) simp
  qed
qed

lemma scan_loop_from_1:
  "scan_loop p wire b 1 acc = fold (scan_body p wire b) scan_addresses acc"
  using scan_loop_fold [of 1 p wire b acc] by (simp add: scan_addresses_def)

lemma set_scan_addresses: "set scan_addresses = {a. 1 \<le> a \<and> a < 127}"
proof (intro set_eqI iffI)
  fix a :: uint8
  assume "a \<in> set scan_addresses"
  then obtain n where n: "1 \<le> n" "n < 127" and a: "a = of_nat n"
    by (auto simp: scan_addresses_def)
  have "unat a = n" using n a by (simp add: unat_of_nat)
  then show "a \<in> {a. 1 \<le> a \<and> a < 127}"
    using n by (simp add: word_le_nat_alt word_less_nat_alt)
next
  fix a :: uint8
  assume "a \<in> {a. 1 \<le> a \<and> a < 127}"
  then have "1 \<le> unat a" "unat a < 127"
    by (simp_all add: word_le_nat_alt word_less_nat_alt)
  then have "unat a \<in> set [1..<127]" by simp
  then have "of_nat (unat a) \<in> set scan_addresses"
    unfolding scan_addresses_def by (simp only: set_map image_eqI)
  then show "a \<in> set scan_addresses" by simp
qed

lemma probe_platform_simps:
  "wire_beginTransmission (probe_platform st) wire a w = probe wire a w"
  "wire_endTransmission (probe_platform st) wire stop w = (st wire (target w wire), w)"
  "millis (probe_platform st) w = (now w, w)"
  by (simp_all add: probe_platform_def probe_def)

lemma probe_simps:
  "target (probe wire a w) wire = a"
  "now (probe wire a w) = now w"
  "begun (probe wire a w) = begun w @ [(wire, a)]"
  by (simp_all add: probe_def)

lemma touch_device_probe:
  "touch_device (probe_platform st) b a ds w =
     (\<exists>d \<in> set ds. address d = a \<and> bus_id d = b, refresh b a (now w) ds, w)"
  by (induction ds) (auto simp: probe_platform_simps)

lemma refresh_absent:
  "\<forall>d \<in> set ds. \<not> (address d = a \<and> bus_id d = b) \<Longrightarrow> refresh b a t ds = ds"
  by (induction ds) auto

lemma scan_body_probe:
  "scan_body (probe_platform st) wire b a (found, s) =
     (if st wire a = 0
      then (found @ [a],
            s\<lparr>world := probe wire a (world s),
              hook_calls := hook_calls s @ [DeviceFound b a],
              known_devices := recordResponse b (now (world s)) a (known_devices s)\<rparr>)
      else (found, s\<lparr>world := probe wire a (world s)\<rparr>))"
  by (auto simp: scan_body_def touch_device_probe onDeviceFound_def recordResponse_def Let_def
      probe_platform_simps probe_simps refresh_absent)

lemma fold_probe:
  "begun (fold (probe wire) as w) = begun w @ map (Pair wire) as"
  "now (fold (probe wire) as w) = now w"
  by (induction as arbitrary: w) (simp_all add: probe_simps)

lemma fold_scan_body_probe:
  "fold (scan_body (probe_platform st) wire b) as (found, s) =
     (found @ filter (\<lambda>a. st wire a = 0) as,
      s\<lparr>world := fold (probe wire) as (world s),
        hook_calls := hook_calls s @ map (DeviceFound b) (filter (\<lambda>a. st wire a = 0) as),
        known_devices := fold (recordResponse b (now (world s)))
                           (filter (\<lambda>a. st wire a = 0) as) (known_devices s)\<rparr>)"
proof (induction as arbitrary: found s)
  case Nil
  show ?case by simp
next
  case (Cons a as)
  show ?case
    by (simp add: scan_body_probe Cons.IH probe_simps)
qed

lemma mark_lost_eq:
  "mark_lost b found ds s =
     (map (\<lambda>d. if unseen b found d then d\<lparr>responsive := False\<rparr> else d) ds,
      s\<lparr>hook_calls := hook_calls s @ map (\<lambda>d. DeviceLost b (address d)) (filter (unseen b found) ds)\<rparr>)"
proof (induction ds arbitrary: s)
  case Nil
  show ?case by simp
next
  case (Cons d ds)
  show ?case
    by (simp add: Cons.IH unseen_def onDeviceLost_def)
qed

lemma scanBus_probe:
  assumes "isBusInitialized b s" and "getBus b s = Some wire"
  shows "scanBus (probe_platform st) b s =
     (let found = filter (\<lambda>a. st wire a = 0) scan_addresses;
          devs = fold (recordResponse b (now (world s))) found (known_devices s)
      in (found,
          s\<lparr>world := fold (probe wire) scan_addresses (world s),
            hook_calls := hook_calls s @ map (DeviceFound b) found
                          @ map (\<lambda>d. DeviceLost b (address d)) (filter (unseen b found) devs),
            known_devices := map (\<lambda>d. if unseen b found d then d\<lparr>responsive := False\<rparr> else d) devs,
            last_error := SUCCESS\<rparr>))"
  using assms
  by (simp add: scanBus_def scan_loop_from_1 fold_scan_body_probe mark_lost_eq setError_def Let_def
      del: scan_loop.simps)

lemma distinct_scan_addresses: "distinct scan_addresses"
proof -
  have "inj_on (of_nat :: nat \<Rightarrow> uint8) (set [1..<127])"
  proof (rule inj_onI)
    fix x y :: nat
    assume "x \<in> set [1..<127]" "y \<in> set [1..<127]" and eq: "(of_nat x :: uint8) = of_nat y"
    then have "x < 256" "y < 256" by simp_all
    then have "unat (of_nat x :: uint8) = x" "unat (of_nat y :: uint8) = y"
      by (simp_all add: unat_of_nat)
    then show "x = y" using eq by metis
  qed
  then show ?thesis
    unfolding scan_addresses_def distinct_map by (intro conjI distinct_upt)
qed

lemma filter_scan_addresses_cong:
  "\<forall>a. 1 \<le> a \<and> a < 127 \<longrightarrow> P a = Q a \<Longrightarrow> filter P scan_addresses = filter Q scan_addresses"
  by (rule filter_cong) (simp_all add: set_scan_addresses)

lemma scan_body_step:
  assumes "scan_body p wire b a (found, s) = (found1, s1)"
  shows "(found1 = found \<and> hook_calls s1 = hook_calls s)
       \<or> (found1 = found @ [a] \<and> hook_calls s1 = hook_calls s @ [DeviceFound b a])"
proof -
  obtain err w2 where e: "wire_endTransmission p wire True
      (wire_beginTransmission p wire a (world s)) = (err, w2)"
    by (cases "wire_endTransmission p wire True (wire_beginTransmission p wire a (world s))")
  show ?thesis
  proof (cases "err = 0")
    case False
    with assms e show ?thesis
      by (auto simp: scan_body_def Let_def)
  next
    case True
    with assms e show ?thesis
      by (auto simp: scan_body_def Let_def onDeviceFound_def split: prod.splits if_splits)
  qed
qed

lemma fold_scan_body_any:
  "fold (scan_body p wire b) as (found, s) = (found', s') \<Longrightarrow>
   \<exists>fs. found' = found @ fs \<and> subseq fs as \<and> hook_calls s' = hook_calls s @ map (DeviceFound b) fs"
proof (induction as arbitrary: found s)
  case Nil
  then show ?case by simp
next
  case (Cons a as)
  obtain found1 s1 where step: "scan_body p wire b a (found, s) = (found1, s1)"
    by (cases "scan_body p wire b a (found, s)")
  with Cons.prems have "fold (scan_body p wire b) as (found1, s1) = (found', s')"
    by simp
  from Cons.IH [OF this] obtain fs where fs: "found' = found1 @ fs" "subseq fs as"
    "hook_calls s' = hook_calls s1 @ map (DeviceFound b) fs"
    by blast
  from scan_body_step [OF step] show ?case
  proof
    assume "found1 = found \<and> hook_calls s1 = hook_calls s"
    with fs show ?thesis
      by (intro exI [of _ fs]) auto
  next
    assume "found1 = found @ [a] \<and> hook_calls s1 = hook_calls s @ [DeviceFound b a]"
    with fs show ?thesis
      by (intro exI [of _ "a # fs"]) simp
  qed
qed

lemma scanBus_any_platform:
  assumes "isBusInitialized b s" and "getBus b s = Some wire"
    and "scanBus p b s = (found, s')"
  shows "last_error s' = SUCCESS \<and> subseq found scan_addresses
       \<and> (\<exists>lost. hook_calls s' = hook_calls s @ map (DeviceFound b) found @ map (DeviceLost b) lost)"
proof -
  obtain f1 s1 where loop: "fold (scan_body p wire b) scan_addresses ([], s) = (f1, s1)"
    by (cases "fold (scan_body p wire b) scan_addresses ([], s)")
  from fold_scan_body_any [OF loop] have f1: "subseq f1 scan_addresses"
    and h1: "hook_calls s1 = hook_calls s @ map (DeviceFound b) f1"
    by auto
  have res: "found = f1"
    "s' = setError SUCCESS
       (s1\<lparr>hook_calls := hook_calls s1
               @ map (\<lambda>d. DeviceLost b (address d)) (filter (unseen b f1) (known_devices s1)),
           known_devices := map (\<lambda>d. if unseen b f1 d then d\<lparr>responsive := False\<rparr> else d)
                              (known_devices s1)\<rparr>)"
    using assms loop by (auto simp: scanBus_def scan_loop_from_1 mark_lost_eq)
  have "hook_calls s' = hook_calls s @ map (DeviceFound b) found
      @ map (DeviceLost b) (map address (filter (unseen b f1) (known_devices s1)))"
    by (simp add: res h1 setError_def comp_def)
  then have "\<exists>lost. hook_calls s' = hook_calls s @ map (DeviceFound b) found @ map (DeviceLost b) lost"
    by blast
  moreover have "last_error s' = SUCCESS"
    by (simp add: res setError_def)
  ultimately show ?thesis
    using f1 res(1) by blast
qed

text \<open>C7. \<^verbatim>\<open>scanBus\<close> on an initialized bus. On the probing double with any status
  function \<open>st\<close>, the transmissions begun during the call are exactly those to the
  addresses 1 to 126 of the bus's handle, in order (127 is not among them, although
  validation accepts it), and the list returned holds exactly the addresses whose status
  was 0. On any platform, the list returned is a sub-list of the addresses 1 to 126 (so
  each address occurs at most once), the hook calls added are one \<^verbatim>\<open>onDeviceFound\<close> per
  returned address, in order, followed only by \<^verbatim>\<open>onDeviceLost\<close> calls, and the last error
  is \<open>SUCCESS\<close>.\<close>

theorem scanBus_sweep:
  assumes "isBusInitialized b s" and "getBus b s = Some wire"
  shows "(scanBus (probe_platform st) b s = (found, s') \<longrightarrow>
            begun (world s') = begun (world s) @ map (Pair wire) scan_addresses
          \<and> found = filter (\<lambda>a. st wire a = 0) scan_addresses)
       \<and> (scanBus p b s = (found, s') \<longrightarrow>
            subseq found scan_addresses \<and> distinct found
          \<and> (\<exists>lost. hook_calls s' = hook_calls s @ map (DeviceFound b) found @ map (DeviceLost b) lost)
          \<and> last_error s' = SUCCESS)
       \<and> set scan_addresses = {a. 1 \<le> a \<and> a \<le> 126}
       \<and> validateBusAndAddress b 127 s = (True, s)"
proof (intro conjI impI)
  assume run: "scanBus (probe_platform st) b s = (found, s')"
  then have "found = fst (scanBus (probe_platform st) b s)" and "s' = snd (scanBus (probe_platform st) b s)"
    by simp_all
  then have found: "found = filter (\<lambda>a. st wire a = 0) scan_addresses"
    and w: "world s' = fold (probe wire) scan_addresses (world s)"
    unfolding scanBus_probe [OF assms] Let_def by simp_all
  show "begun (world s') = begun (world s) @ map (Pair wire) scan_addresses"
    by (simp add: w fold_probe)
  show "found = filter (\<lambda>a. st wire a = 0) scan_addresses"
    by (rule found)
next
  assume run: "scanBus p b s = (found, s')"
  note any = scanBus_any_platform [OF assms run]
  from any show "subseq found scan_addresses" by simp
  then show "distinct found"
    using distinct_scan_addresses by (auto simp: subseq_conv_nths)
  from any show "\<exists>lost. hook_calls s' = hook_calls s @ map (DeviceFound b) found @ map (DeviceLost b) lost"
    by simp
  from any show "last_error s' = SUCCESS" by simp
next
  show "set scan_addresses = {a. 1 \<le> a \<and> a \<le> 126}"
    by (auto simp: set_scan_addresses word_le_nat_alt word_less_nat_alt)
  show "validateBusAndAddress b 127 s = (True, s)"
    using assms(1) by (simp add: validate_good_address)
qed

lemma found_only_0x48: "filter (\<lambda>a. only_0x48 Wire a = 0) scan_addresses = [0x48]"
  by code_simp

theorem scanBus_sweep_witness:
  "fst (scanBus (probe_platform only_0x48) 0 (bus0_state probe_world0)) = [0x48]
   \<and> begun (world (snd (scanBus (probe_platform only_0x48) 0 (bus0_state probe_world0))))
       = map (Pair Wire) scan_addresses
   \<and> hook_calls (snd (scanBus (probe_platform only_0x48) 0 (bus0_state probe_world0)))
       = [DeviceFound 0 0x48]
   \<and> last_error (snd (scanBus (probe_platform only_0x48) 0 (bus0_state probe_world0))) = SUCCESS"
proof -
  let ?s = "bus0_state probe_world0"
  let ?r = "scanBus (probe_platform only_0x48) 0 ?s"
  have init: "isBusInitialized 0 ?s" and bus: "getBus 0 ?s = Some Wire"
    by (simp_all add: isBusInitialized_def getBus_def bus0_state_def)
  have run: "?r = (fst ?r, snd ?r)" by simp
  have start: "begun (world ?s) = []" "hook_calls ?s = []" "known_devices ?s = []"
    by (simp_all add: bus0_state_def probe_world0_def)
  have hooks: "hook_calls (snd ?r) = [DeviceFound 0 0x48]"
    unfolding scanBus_probe [OF init bus] Let_def found_only_0x48
    by (simp add: start recordResponse_def unseen_def)
  from scanBus_sweep [OF init bus, of only_0x48 "fst ?r" "snd ?r" "probe_platform only_0x48"] run
  have "fst ?r = [0x48]"
    and "begun (world (snd ?r)) = map (Pair Wire) scan_addresses"
    and "last_error (snd ?r) = SUCCESS"
    by (simp_all add: found_only_0x48 start)
  with hooks show ?thesis by simp
qed

section \<open>Repeated scans\<close>

lemma filter_0x48_0x50: "filter (\<lambda>a. a = 0x48 \<or> a = 0x50) scan_addresses = [0x48, 0x50]"
  by code_simp

lemma filter_0x48: "filter (\<lambda>a. a = 0x48) scan_addresses = [0x48]"
  by code_simp

lemma refresh_member:
  "d \<in> set (refresh b a t ds) \<Longrightarrow> d \<in> set ds \<or> (address d = a \<and> responsive d)"
  by (induction ds) (auto split: if_splits)

lemma recordResponse_member:
  "d \<in> set (recordResponse b t a ds) \<Longrightarrow> d \<in> set ds \<or> address d = a"
  by (auto simp: recordResponse_def dest: refresh_member split: if_splits)

lemma fold_recordResponse_member:
  "d \<in> set (fold (recordResponse b t) as ds) \<Longrightarrow> d \<in> set ds \<or> address d \<in> set as"
  by (induction as arbitrary: ds) (auto dest: recordResponse_member)

lemma refresh_keeps:
  "d \<in> set ds \<Longrightarrow> address d \<noteq> a \<Longrightarrow> d \<in> set (refresh b a t ds)"
  by (induction ds) auto

lemma recordResponse_keeps:
  "d \<in> set ds \<Longrightarrow> address d \<noteq> a \<Longrightarrow> d \<in> set (recordResponse b t a ds)"
  by (simp add: recordResponse_def refresh_keeps)

lemma fold_recordResponse_keeps:
  "d \<in> set ds \<Longrightarrow> address d \<notin> set as \<Longrightarrow> d \<in> set (fold (recordResponse b t) as ds)"
  by (induction as arbitrary: ds) (auto simp: recordResponse_keeps)

lemma length_refresh: "length (refresh b a t ds) = length ds"
  by (induction ds) auto

lemma length_fold_recordResponse:
  "length ds \<le> length (fold (recordResponse b t) as ds)"
proof (induction as arbitrary: ds)
  case Nil
  show ?case by simp
next
  case (Cons a as)
  have "length ds \<le> length (recordResponse b t a ds)"
    by (simp add: recordResponse_def length_refresh)
  also have "\<dots> \<le> length (fold (recordResponse b t) as (recordResponse b t a ds))"
    by (rule Cons.IH)
  finally show ?case by simp
qed

lemma scanBus_probe_result:
  assumes "isBusInitialized b s" and "getBus b s = Some wire"
    and "scanBus (probe_platform st) b s = (found, s')"
  shows "found = filter (\<lambda>a. st wire a = 0) scan_addresses"
    and "known_devices s' =
           map (\<lambda>d. if unseen b found d then d\<lparr>responsive := False\<rparr> else d)
             (fold (recordResponse b (now (world s))) found (known_devices s))"
    and "hook_calls s' = hook_calls s @ map (DeviceFound b) found
           @ map (\<lambda>d. DeviceLost b (address d))
               (filter (unseen b found) (fold (recordResponse b (now (world s))) found (known_devices s)))"
    and "buses s' = buses s"
proof -
  have "found = fst (scanBus (probe_platform st) b s)" and "s' = snd (scanBus (probe_platform st) b s)"
    using assms(3) by simp_all
  then show "found = filter (\<lambda>a. st wire a = 0) scan_addresses"
    and "known_devices s' =
           map (\<lambda>d. if unseen b found d then d\<lparr>responsive := False\<rparr> else d)
             (fold (recordResponse b (now (world s))) found (known_devices s))"
    and "hook_calls s' = hook_calls s @ map (DeviceFound b) found
           @ map (\<lambda>d. DeviceLost b (address d))
               (filter (unseen b found) (fold (recordResponse b (now (world s))) found (known_devices s)))"
    and "buses s' = buses s"
    unfolding scanBus_probe [OF assms(1,2)] Let_def by simp_all
qed

text \<open>C3. Bus 0 is initialized and no device is known. A first scan in which exactly 0x48
  and 0x50 acknowledge creates their two records, responsive. A second scan (the world may
  have changed in between, its clock reads \<open>now w2\<close>) in which exactly 0x48 acknowledges
  leaves 0x48 responsive with \<^verbatim>\<open>last_seen\<close> refreshed, flips 0x50 to not responsive with
  its \<^verbatim>\<open>last_seen\<close> as it was, and adds one \<^verbatim>\<open>onDeviceFound\<close> call and exactly one
  \<^verbatim>\<open>onDeviceLost\<close> call, for (0, 0x50); no record is removed. A further scan in which 0x50
  again does not acknowledge (whatever else does) adds no \<^verbatim>\<open>onDeviceLost\<close> call for
  (0, 0x50), keeps its record, and removes none.\<close>

theorem rescan_marks_lost_device:
  assumes init: "isBusInitialized 0 s0" and bus: "getBus 0 s0 = Some wire"
    and fresh: "known_devices s0 = []"
    and first: "\<forall>a. 1 \<le> a \<and> a < 127 \<longrightarrow> (st1 wire a = 0) = (a = 0x48 \<or> a = 0x50)"
    and second: "\<forall>a. 1 \<le> a \<and> a < 127 \<longrightarrow> (st2 wire a = 0) = (a = 0x48)"
    and third: "st3 wire 0x50 \<noteq> 0"
    and scan1: "scanBus (probe_platform st1) 0 s0 = (found1, s1)"
    and scan2: "scanBus (probe_platform st2) 0 (s1\<lparr>world := w2\<rparr>) = (found2, s2)"
    and scan3: "scanBus (probe_platform st3) 0 (s2\<lparr>world := w3\<rparr>) = (found3, s3)"
  shows "found1 = [0x48, 0x50]
       \<and> known_devices s1 = [device_record 0 0x48 True (now (world s0)),
                             device_record 0 0x50 True (now (world s0))]
       \<and> found2 = [0x48]
       \<and> known_devices s2 = [device_record 0 0x48 True (now w2),
                             device_record 0 0x50 False (now (world s0))]
       \<and> hook_calls s2 = hook_calls s1 @ [DeviceFound 0 0x48, DeviceLost 0 0x50]
       \<and> DeviceLost 0 0x50 \<notin> set (drop (length (hook_calls s2)) (hook_calls s3))
       \<and> device_record 0 0x50 False (now (world s0)) \<in> set (known_devices s3)
       \<and> length (known_devices s2) \<le> length (known_devices s3)"
proof -
  let ?d48 = "\<lambda>t. device_record 0 0x48 True t"
  let ?lost50 = "device_record 0 0x50 False (now (world s0))"
  note r1 = scanBus_probe_result [OF init bus scan1]
  have f1: "found1 = [0x48, 0x50]"
    using r1(1) filter_scan_addresses_cong [OF first] by (simp add: filter_0x48_0x50)
  have k1: "known_devices s1 = [?d48 (now (world s0)), device_record 0 0x50 True (now (world s0))]"
    by (simp add: r1(2) f1 fresh recordResponse_def unseen_def device_record_def)
  have init1: "isBusInitialized 0 (s1\<lparr>world := w2\<rparr>)" and bus1: "getBus 0 (s1\<lparr>world := w2\<rparr>) = Some wire"
    using init bus r1(4) by (simp_all add: isBusInitialized_def getBus_def)
  note r2 = scanBus_probe_result [OF init1 bus1 scan2]
  have f2: "found2 = [0x48]"
    using r2(1) filter_scan_addresses_cong [OF second] by (simp add: filter_0x48)
  have k2: "known_devices s2 = [?d48 (now w2), ?lost50]"
    using r2(2) by (simp add: f2 k1 recordResponse_def unseen_def device_record_def)
  have h2: "hook_calls s2 = hook_calls s1 @ [DeviceFound 0 0x48, DeviceLost 0 0x50]"
    using r2(3) by (simp add: f2 k1 recordResponse_def unseen_def device_record_def)
  have init2: "isBusInitialized 0 (s2\<lparr>world := w3\<rparr>)" and bus2: "getBus 0 (s2\<lparr>world := w3\<rparr>) = Some wire"
    using init1 bus1 r2(4) by (simp_all add: isBusInitialized_def getBus_def)
  note r3 = scanBus_probe_result [OF init2 bus2 scan3]
  let ?devs3 = "fold (recordResponse 0 (now w3)) found3 [?d48 (now w2), ?lost50]"
  have absent: "0x50 \<notin> set found3"
    using r3(1) third by simp
  have k3: "known_devices s3 =
      map (\<lambda>d. if unseen 0 found3 d then d\<lparr>responsive := False\<rparr> else d) ?devs3"
    using r3(2) by (simp add: k2)
  have h3: "drop (length (hook_calls s2)) (hook_calls s3) =
      map (DeviceFound 0) found3 @ map (\<lambda>d. DeviceLost 0 (address d)) (filter (unseen 0 found3) ?devs3)"
    using r3(3) by (simp add: k2)
  have no_lost: "DeviceLost 0 0x50 \<notin> set (drop (length (hook_calls s2)) (hook_calls s3))"
  proof
    assume "DeviceLost 0 0x50 \<in> set (drop (length (hook_calls s2)) (hook_calls s3))"
    then obtain d where d: "d \<in> set ?devs3" "unseen 0 found3 d" "address d = 0x50"
      unfolding h3 by auto
    from d(1) have "d \<in> set [?d48 (now w2), ?lost50] \<or> address d \<in> set found3"
      by (rule fold_recordResponse_member)
    with d(3) absent have "d \<in> set [?d48 (now w2), ?lost50]"
      by simp
    with d(3) have "d = ?lost50"
      by (auto simp: device_record_def)
    with d(2) show False
      by (simp add: unseen_def device_record_def)
  qed
  have "?lost50 \<in> set ?devs3"
    using absent by (intro fold_recordResponse_keeps) (simp_all add: device_record_def)
  moreover have "\<not> unseen 0 found3 ?lost50"
    by (simp add: unseen_def device_record_def)
  ultimately have kept: "?lost50 \<in> set (known_devices s3)"
    unfolding k3 by force
  have len: "length (known_devices s2) \<le> length (known_devices s3)"
    using length_fold_recordResponse [where ds = "[?d48 (now w2), ?lost50]" and b = 0
        and t = "now w3" and as = found3]
    by (simp add: k2 k3)
  show ?thesis
    using f1 k1 f2 k2 h2 no_lost kept len by blast
qed

theorem rescan_marks_lost_device_witness:
  "known_devices scan1_state = [device_record 0 0x48 True 1000, device_record 0 0x50 True 1000]
   \<and> known_devices scan2_state = [device_record 0 0x48 True 2000, device_record 0 0x50 False 1000]
   \<and> hook_calls scan2_state = hook_calls scan1_state @ [DeviceFound 0 0x48, DeviceLost 0 0x50]
   \<and> DeviceLost 0 0x50 \<notin> set (drop (length (hook_calls scan2_state)) (hook_calls scan3_state))
   \<and> device_record 0 0x50 False 1000 \<in> set (known_devices scan3_state)"
proof -
  let ?s0 = "bus0_state probe_world0"
  have init: "isBusInitialized 0 ?s0" and bus: "getBus 0 ?s0 = Some Wire"
    and fresh: "known_devices ?s0 = []"
    by (simp_all add: isBusInitialized_def getBus_def bus0_state_def)
  have first: "\<forall>a. 1 \<le> a \<and> a < 127 \<longrightarrow> (both_respond Wire a = 0) = (a = 0x48 \<or> a = 0x50)"
    by (simp add: both_respond_def)
  have second: "\<forall>a. 1 \<le> a \<and> a < 127 \<longrightarrow> (only_0x48 Wire a = 0) = (a = 0x48)"
    by (simp add: only_0x48_def)
  have third: "only_0x48 Wire 0x50 \<noteq> 0"
    by (simp add: only_0x48_def)
  have scan1: "scanBus (probe_platform both_respond) 0 ?s0
      = (fst (scanBus (probe_platform both_respond) 0 ?s0), scan1_state)"
    by (simp add: scan1_state_def)
  have scan2: "scanBus (probe_platform only_0x48) 0 (scan1_state\<lparr>world := probe_world0\<lparr>now := 2000\<rparr>\<rparr>)
      = (fst (scanBus (probe_platform only_0x48) 0 (scan1_state\<lparr>world := probe_world0\<lparr>now := 2000\<rparr>\<rparr>)),
         scan2_state)"
    by (simp add: scan2_state_def)
  have scan3: "scanBus (probe_platform only_0x48) 0 (scan2_state\<lparr>world := probe_world0\<lparr>now := 3000\<rparr>\<rparr>)
      = (fst (scanBus (probe_platform only_0x48) 0 (scan2_state\<lparr>world := probe_world0\<lparr>now := 3000\<rparr>\<rparr>)),
         scan3_state)"
    by (simp add: scan3_state_def)
  have clock: "now (world ?s0) = 1000" "now (probe_world0\<lparr>now := 2000\<rparr>) = 2000"
    by (simp_all add: bus0_state_def probe_world0_def)
  show ?thesis
    using rescan_marks_lost_device [OF init bus fresh first second third scan1 scan2 scan3,
        unfolded clock]
    by blast
qed

section \<open>Round trip through the storing double\<close>

lemma recombine_bytes:
  fixes d :: uint16
  shows "(word_of_int
            (uint (word_of_int (push_bit 8 (uint (ucast (drop_bit 8 d) :: uint8))) :: uint16)
             OR uint (ucast (d AND 0xFF) :: uint8)) :: uint16) = d"
proof -
  have m: "(0xFF :: uint16) = mask 8"
    by (simp add: mask_eq_exp_minus_1)
  show ?thesis
    unfolding m by (rule bit_word_eqI) (auto simp: bit_simps)
qed

lemma upt_0_2: "[0..<2] = [0, 1 :: nat]"
  by (simp add: upt_rec)

lemma validate_passed:
  "validateBusAndAddress b a s = (True, s') \<Longrightarrow>
   s' = s \<and> isBusInitialized b s \<and> 1 \<le> a \<and> a \<le> 127"
  using unat_gt_0 [of a]
  by (auto simp: validateBusAndAddress_def word_le_nat_alt word_less_nat_alt split: if_splits)

lemma validate_frame:
  "buses s' = buses s \<Longrightarrow> validateBusAndAddress b a s = (True, s) \<Longrightarrow>
   validateBusAndAddress b a s' = (True, s')"
  by (auto simp: validateBusAndAddress_def isBusInitialized_def split: if_splits)

lemma write_succeeded:
  assumes "writeRegister p b a r v s = Some (True, s1) \<or> writeRegister16 p b a r d s = Some (True, s1)"
  shows "validateBusAndAddress b a s = (True, s) \<and> (\<exists>wire. getBus b s = Some wire)"
proof -
  obtain ok s' where v: "validateBusAndAddress b a s = (ok, s')"
    by (cases "validateBusAndAddress b a s")
  have ok
  proof (rule ccontr)
    assume "\<not> ok"
    with v have "validateBusAndAddress b a s = (False, s')" by simp
    from rejected_ops(1,2) [OF this, of p] assms show False by auto
  qed
  with v validate_passed [of b a s s'] have v': "validateBusAndAddress b a s = (True, s)"
    by simp
  have "getBus b s \<noteq> None"
  proof
    assume "getBus b s = None"
    with v' have "writeRegister p b a r v s = None" "writeRegister16 p b a r d s = None"
      by (simp_all add: writeRegister_def writeRegister16_def)
    with assms show False by simp
  qed
  with v' show ?thesis by auto
qed

lemma writeRegister_sim:
  assumes "validateBusAndAddress b a s = (True, s)" and "getBus b s = Some wire"
  shows "writeRegister sim_platform b a r v s =
     (case registers (world s) wire a of
        None \<Rightarrow> Some (False, setError NACK_ADDRESS (s\<lparr>world := sim_sent wire a [r, v] (world s)\<rparr>))
      | Some m \<Rightarrow> Some (True, setError SUCCESS (s\<lparr>world := sim_stored wire a r [v] m (world s)\<rparr>)))"
  using assms
  by (simp add: writeRegister_def sim_platform_def sim_endTransmission_def Let_def
      I2CError_of_status_def sim_sent_def sim_stored_def split: option.splits)

lemma writeRegister16_sim:
  assumes "validateBusAndAddress b a s = (True, s)" and "getBus b s = Some wire"
  shows "writeRegister16 sim_platform b a r d s =
     (case registers (world s) wire a of
        None \<Rightarrow> Some (False, setError NACK_ADDRESS
                  (s\<lparr>world := sim_sent wire a [r, ucast (drop_bit 8 d), ucast (d AND 0xFF)] (world s)\<rparr>))
      | Some m \<Rightarrow> Some (True, setError SUCCESS
                  (s\<lparr>world := sim_stored wire a r [ucast (drop_bit 8 d), ucast (d AND 0xFF)] m (world s)\<rparr>)))"
  using assms
  by (simp add: writeRegister16_def sim_platform_def sim_endTransmission_def Let_def
      I2CError_of_status_def sim_sent_def sim_stored_def split: option.splits)

lemma readRegister_sim:
  assumes "validateBusAndAddress b a s = (True, s)" and "getBus b s = Some wire"
    and "registers (world s) wire a = Some m"
  shows "\<exists>s2. readRegister sim_platform b a r s = Some (m r, s2) \<and> last_error s2 = SUCCESS"
  using assms
  by (simp add: readRegister_def sim_platform_def sim_endTransmission_def sim_requestFrom_def
      sim_read_def Let_def setError_def)

lemma readRegister16_sim:
  assumes "validateBusAndAddress b a s = (True, s)" and "getBus b s = Some wire"
    and "registers (world s) wire a = Some m"
  shows "\<exists>s2. readRegister16 sim_platform b a r s
            = Some (word_of_int (uint (word_of_int (push_bit 8 (uint (m r))) :: uint16)
                                 OR uint (m (r + 1))), s2)
          \<and> last_error s2 = SUCCESS"
  using assms
  by (simp add: readRegister16_def sim_platform_def sim_endTransmission_def sim_requestFrom_def
      sim_read_def Let_def setError_def upt_0_2)

text \<open>C8. On the double that stores what is written: after a \<^verbatim>\<open>writeRegister\<close> that
  returned true, \<^verbatim>\<open>readRegister\<close> of the same bus, address and register returns the byte
  written, with last error \<open>SUCCESS\<close>. After a \<^verbatim>\<open>writeRegister16\<close> that returned true,
  the device holds the high byte of the word at the register and the low byte at the next
  one (the double stores payload bytes in the order sent, from the register on), and
  \<^verbatim>\<open>readRegister16\<close>, which receives these two bytes in this order, returns the word
  written: the first byte received is its high byte.\<close>

theorem register_round_trip:
  "(writeRegister sim_platform b a r v s = Some (True, s1) \<longrightarrow>
      (\<exists>s2. readRegister sim_platform b a r s1 = Some (v, s2) \<and> last_error s2 = SUCCESS))
   \<and> (writeRegister16 sim_platform b a r d s = Some (True, s1) \<longrightarrow>
      (\<exists>wire m. getBus b s = Some wire \<and> registers (world s1) wire a = Some m
         \<and> m r = ucast (drop_bit 8 d) \<and> m (r + 1) = ucast (d AND 0xFF))
      \<and> (\<exists>s2. readRegister16 sim_platform b a r s1 = Some (d, s2) \<and> last_error s2 = SUCCESS))"
proof (intro conjI impI)
  assume w: "writeRegister sim_platform b a r v s = Some (True, s1)"
  then obtain wire where v: "validateBusAndAddress b a s = (True, s)" and g: "getBus b s = Some wire"
    using write_succeeded [of sim_platform b a r v s s1] by auto
  from w obtain m where m: "registers (world s) wire a = Some m"
    and s1: "s1 = setError SUCCESS (s\<lparr>world := sim_stored wire a r [v] m (world s)\<rparr>)"
    unfolding writeRegister_sim [OF v g] by (auto split: option.splits)
  have b1: "buses s1 = buses s" by (simp add: s1 setError_def)
  have v1: "validateBusAndAddress b a s1 = (True, s1)"
    using b1 v by (rule validate_frame)
  have g1: "getBus b s1 = Some wire"
    using b1 g by (simp add: getBus_def)
  have "registers (world s1) wire a = Some (m(r := v))"
    by (simp add: s1 setError_def sim_stored_def)
  from readRegister_sim [OF v1 g1 this, of r]
  show "\<exists>s2. readRegister sim_platform b a r s1 = Some (v, s2) \<and> last_error s2 = SUCCESS"
    by simp
next
  assume w: "writeRegister16 sim_platform b a r d s = Some (True, s1)"
  then obtain wire where v: "validateBusAndAddress b a s = (True, s)" and g: "getBus b s = Some wire"
    using write_succeeded [of sim_platform b a r _ s s1 d] by auto
  let ?hi = "ucast (drop_bit 8 d) :: uint8" and ?lo = "ucast (d AND 0xFF) :: uint8"
  from w obtain m where m: "registers (world s) wire a = Some m"
    and s1: "s1 = setError SUCCESS (s\<lparr>world := sim_stored wire a r [?hi, ?lo] m (world s)\<rparr>)"
    unfolding writeRegister16_sim [OF v g] by (auto split: option.splits)
  let ?m = "m(r := ?hi, r + 1 := ?lo)"
  have b1: "buses s1 = buses s" by (simp add: s1 setError_def)
  have v1: "validateBusAndAddress b a s1 = (True, s1)"
    using b1 v by (rule validate_frame)
  have g1: "getBus b s1 = Some wire"
    using b1 g by (simp add: getBus_def)
  have regs: "registers (world s1) wire a = Some ?m"
    by (simp add: s1 setError_def sim_stored_def)
  have hi: "?m r = ?hi" and lo: "?m (r + 1) = ?lo"
    by simp_all
  show "\<exists>wire m. getBus b s = Some wire \<and> registers (world s1) wire a = Some m
         \<and> m r = ucast (drop_bit 8 d) \<and> m (r + 1) = ucast (d AND 0xFF)"
    using g regs hi lo by blast
  from readRegister16_sim [OF v1 g1 regs, of r]
  show "\<exists>s2. readRegister16 sim_platform b a r s1 = Some (d, s2) \<and> last_error s2 = SUCCESS"
    unfolding hi lo recombine_bytes .
qed

theorem register_round_trip_witness:
  "(case writeRegister sim_platform 0 0x48 0x00 0xFF (bus0_state sim_world0) of
      None \<Rightarrow> False
    | Some (ok, s1) \<Rightarrow> ok \<and> map_option fst (readRegister sim_platform 0 0x48 0x00 s1) = Some 0xFF)
   \<and> (case writeRegister16 sim_platform 0 0x48 0x10 0xABCD (bus0_state sim_world0) of
      None \<Rightarrow> False
    | Some (ok, s1) \<Rightarrow> ok \<and> map_option fst (readRegister16 sim_platform 0 0x48 0x10 s1) = Some 0xABCD)"
proof -
  let ?s = "bus0_state sim_world0"
  have "map_option fst (writeRegister sim_platform 0 0x48 0x00 0xFF ?s) = Some True"
    by (simp add: writeRegister_def validateBusAndAddress_def isBusInitialized_def getBus_def
        bus0_state_def sim_platform_def sim_endTransmission_def sim_world0_def Let_def)
  then obtain s1 where w8: "writeRegister sim_platform 0 0x48 0x00 0xFF ?s = Some (True, s1)"
    by (cases "writeRegister sim_platform 0 0x48 0x00 0xFF ?s") auto
  have "map_option fst (writeRegister16 sim_platform 0 0x48 0x10 0xABCD ?s) = Some True"
    by (simp add: writeRegister16_def validateBusAndAddress_def isBusInitialized_def getBus_def
        bus0_state_def sim_platform_def sim_endTransmission_def sim_world0_def Let_def)
  then obtain s1' where w16: "writeRegister16 sim_platform 0 0x48 0x10 0xABCD ?s = Some (True, s1')"
    by (cases "writeRegister16 sim_platform 0 0x48 0x10 0xABCD ?s") auto
  from register_round_trip [where b = 0 and a = "0x48" and r = "0x00" and v = "0xFF"
      and s = ?s and ?s1.0 = s1] w8
  obtain s2 where "readRegister sim_platform 0 0x48 0x00 s1 = Some (0xFF, s2)"
    by blast
  moreover from register_round_trip [where b = 0 and a = "0x48" and r = "0x10" and d = "0xABCD"
      and s = ?s and ?s1.0 = s1'] w16
  obtain s2' where "readRegister16 sim_platform 0 0x48 0x10 s1' = Some (0xABCD, s2')"
    by blast
  ultimately show ?thesis
    using w8 w16 by simp
qed

section \<open>The ping handler\<close>

lemma handlePingDevice_present:
  assumes "params ''bus_id'' = Some bus_str" and "params ''device_addr'' = Some addr_str"
  shows "handlePingDevice p params s =
     map_option (\<lambda>(present, s'). (ping_response (word_of_int (toInt bus_str))
                                      (word_of_int (strtol addr_str 16)) present, s'))
       (isDevicePresent p (word_of_int (toInt bus_str)) (word_of_int (strtol addr_str 16)) s)"
  using assms
  by (simp add: handlePingDevice_def ping_response_def Let_def split: option.splits)

lemma isDevicePresent_validated:
  assumes "validateBusAndAddress b a s = (True, s)" and "getBus b s = Some wire"
  shows "isDevicePresent p b a s =
     Some (fst (wire_endTransmission p wire True (wire_beginTransmission p wire a (world s))) = 0,
           s\<lparr>world := snd (wire_endTransmission p wire True (wire_beginTransmission p wire a (world s)))\<rparr>)"
  using assms by (simp add: isDevicePresent_def Let_def case_prod_beta)

text \<open>C10. When the parameters \<^verbatim>\<open>bus_id\<close> and \<^verbatim>\<open>device_addr\<close> are both present (and an
  initialized bus has its handle), \<^verbatim>\<open>handlePingDevice\<close> returns status 200 and a document
  with \<^verbatim>\<open>success\<close> true. When the bus is not initialized, or the address is 0 or above
  127, the document says \<^verbatim>\<open>present\<close> false, and it is the same document, with the same
  status, that a valid probe returns when the device does not acknowledge.\<close>

theorem ping_reports_failures_as_absent:
  assumes "params ''bus_id'' = Some bus_str" and "params ''device_addr'' = Some addr_str"
    and "b = word_of_int (toInt bus_str)" and "a = word_of_int (strtol addr_str 16)"
    and "isBusInitialized b s \<longrightarrow> getBus b s \<noteq> None"
  shows "(\<exists>present s'. handlePingDevice p params s = Some (ping_response b a present, s'))
       \<and> (\<not> isBusInitialized b s \<or> a = 0 \<or> 127 < a \<longrightarrow>
            (\<exists>s'. handlePingDevice p params s = Some (ping_response b a False, s')))
       \<and> (\<forall>wire. isBusInitialized b s \<and> 1 \<le> a \<and> a \<le> 127 \<and> getBus b s = Some wire
              \<and> fst (wire_endTransmission p wire True (wire_beginTransmission p wire a (world s))) \<noteq> 0 \<longrightarrow>
            (\<exists>s'. handlePingDevice p params s = Some (ping_response b a False, s')))
       \<and> snd (ping_response b a present) = 200
       \<and> map_of (fst (ping_response b a present)) ''success'' = Some (JBool True)
       \<and> map_of (fst (ping_response b a present)) ''present'' = Some (JBool present)"
proof -
  note h = handlePingDevice_present [OF assms(1,2), of p s, folded assms(3,4)]
  have rejected: "\<exists>s'. handlePingDevice p params s = Some (ping_response b a False, s')"
    if "\<not> isBusInitialized b s \<or> a = 0 \<or> 127 < a"
  proof (cases "isBusInitialized b s")
    case False
    then show ?thesis
      using rejected_ops(7) [OF validate_uninitialized, of b s p a] by (simp add: h)
  next
    case True
    with that have "a = 0 \<or> 127 < a" by simp
    then show ?thesis
      using rejected_ops(7) [OF validate_bad_address [OF True], of a p] by (simp add: h)
  qed
  have probed: "handlePingDevice p params s
      = Some (ping_response b a
                (fst (wire_endTransmission p wire True (wire_beginTransmission p wire a (world s))) = 0),
              s\<lparr>world := snd (wire_endTransmission p wire True
                                 (wire_beginTransmission p wire a (world s)))\<rparr>)"
    if "isBusInitialized b s" "1 \<le> a" "a \<le> 127" "getBus b s = Some wire" for wire
    using isDevicePresent_validated [OF validate_good_address [OF that(1-3)] that(4), of p]
    by (simp add: h)
  have always: "\<exists>present s'. handlePingDevice p params s = Some (ping_response b a present, s')"
  proof (cases "\<not> isBusInitialized b s \<or> a = 0 \<or> 127 < a")
    case True
    then show ?thesis using rejected by blast
  next
    case False
    then have i: "isBusInitialized b s" and lo: "1 \<le> a" and hi: "a \<le> 127"
      using unat_gt_0 [of a] by (auto simp: word_le_nat_alt word_less_nat_alt)
    with assms(5) obtain wire where "getBus b s = Some wire" by auto
    from probed [OF i lo hi this] show ?thesis by blast
  qed
  show ?thesis
    using always rejected probed by (auto simp: ping_response_def)
qed

theorem ping_reports_failures_as_absent_witness:
  "map_option fst (handlePingDevice sim_platform [''bus_id'' \<mapsto> ''1'', ''device_addr'' \<mapsto> ''0x48'']
      (bus0_state sim_world0)) = Some (ping_response 1 0x48 False)
   \<and> map_option fst (handlePingDevice sim_platform [''bus_id'' \<mapsto> ''0'', ''device_addr'' \<mapsto> ''0xC8'']
      (bus0_state sim_world0)) = Some (ping_response 0 0xC8 False)
   \<and> map_option fst (handlePingDevice sim_platform [''bus_id'' \<mapsto> ''0'', ''device_addr'' \<mapsto> ''0x49'']
      (bus0_state sim_world0)) = Some (ping_response 0 0x49 False)
   \<and> snd (ping_response 0 0x49 False) = 200"
proof -
  let ?s = "bus0_state sim_world0"
  have nums: "(1 :: uint8) = word_of_int (toInt ''1'')" "(0 :: uint8) = word_of_int (toInt ''0'')"
    "(0x48 :: uint8) = word_of_int (strtol ''0x48'' 16)"
    "(0xC8 :: uint8) = word_of_int (strtol ''0xC8'' 16)"
    "(0x49 :: uint8) = word_of_int (strtol ''0x49'' 16)"
    by code_simp+
  have uninit: "\<not> isBusInitialized 1 ?s" and init: "isBusInitialized 0 ?s"
    and bus: "getBus 0 ?s = Some Wire"
    by (simp_all add: isBusInitialized_def getBus_def bus0_state_def)
  have imp1: "isBusInitialized 1 ?s \<longrightarrow> getBus 1 ?s \<noteq> None"
    and imp0: "isBusInitialized 0 ?s \<longrightarrow> getBus 0 ?s \<noteq> None"
    using uninit bus by simp_all
  have big: "(127 :: uint8) < 0xC8" and range: "(1 :: uint8) \<le> 0x49" "(0x49 :: uint8) \<le> 127"
    by simp_all
  have nack: "fst (wire_endTransmission sim_platform Wire True
                     (wire_beginTransmission sim_platform Wire 0x49 (world ?s))) \<noteq> 0"
    by (simp add: sim_platform_def sim_endTransmission_def bus0_state_def sim_world0_def)
  have p1: "[''bus_id'' \<mapsto> ''1'', ''device_addr'' \<mapsto> ''0x48''] ''bus_id'' = Some ''1''"
    "[''bus_id'' \<mapsto> ''1'', ''device_addr'' \<mapsto> ''0x48''] ''device_addr'' = Some ''0x48''"
    and p2: "[''bus_id'' \<mapsto> ''0'', ''device_addr'' \<mapsto> ''0xC8''] ''bus_id'' = Some ''0''"
    "[''bus_id'' \<mapsto> ''0'', ''device_addr'' \<mapsto> ''0xC8''] ''device_addr'' = Some ''0xC8''"
    and p3: "[''bus_id'' \<mapsto> ''0'', ''device_addr'' \<mapsto> ''0x49''] ''bus_id'' = Some ''0''"
    "[''bus_id'' \<mapsto> ''0'', ''device_addr'' \<mapsto> ''0x49''] ''device_addr'' = Some ''0x49''"
    by simp_all
  have "\<exists>s'. handlePingDevice sim_platform [''bus_id'' \<mapsto> ''1'', ''device_addr'' \<mapsto> ''0x48''] ?s
          = Some (ping_response 1 0x48 False, s')"
    using ping_reports_failures_as_absent [OF p1 nums(1) nums(3) imp1, of sim_platform] uninit
    by blast
  moreover have "\<exists>s'. handlePingDevice sim_platform [''bus_id'' \<mapsto> ''0'', ''device_addr'' \<mapsto> ''0xC8''] ?s
          = Some (ping_response 0 0xC8 False, s')"
    using ping_reports_failures_as_absent [OF p2 nums(2) nums(4) imp0, of sim_platform] big
    by blast
  moreover have "\<exists>s'. handlePingDevice sim_platform [''bus_id'' \<mapsto> ''0'', ''device_addr'' \<mapsto> ''0x49''] ?s
          = Some (ping_response 0 0x49 False, s')"
    using ping_reports_failures_as_absent [OF p3 nums(2) nums(5) imp0, of sim_platform]
      bus init nack range
    by blast
  ultimately show ?thesis
    by (auto simp: ping_response_def)
qed

section \<open>The data parameter of the write-bytes handler\<close>

lemma split_commas_no_comma: "CHR '','' \<notin> set t \<Longrightarrow> split_commas t = [t]"
  by (induction t) auto

lemma split_commas_first:
  "CHR '','' \<notin> set t \<Longrightarrow> split_commas (t @ CHR '','' # rest) = t # split_commas rest"
  by (induction t) auto

lemma data_tokens_no_comma:
  "CHR '','' \<notin> set t \<Longrightarrow>
   data_tokens t = (if trim t \<noteq> [] then [word_of_int (strtol (trim t) 16)] else [])"
  by (simp add: data_tokens_def split_commas_no_comma)

lemma data_tokens_first:
  "CHR '','' \<notin> set t \<Longrightarrow>
   data_tokens (t @ CHR '','' # rest)
     = (if trim t \<noteq> [] then [word_of_int (strtol (trim t) 16)] else []) @ data_tokens rest"
  by (simp add: data_tokens_def split_commas_first)

lemma indexOf_none:
  "ch \<notin> set rest \<Longrightarrow> indexOf (pre @ rest) ch (length pre) = - 1"
  by (simp add: indexOf_def)

lemma takeWhile_upto:
  "ch \<notin> set t \<Longrightarrow> takeWhile (\<lambda>x. x \<noteq> ch) (t @ ch # rest) = t"
  by (induction t) auto

lemma indexOf_first:
  "ch \<notin> set t \<Longrightarrow> indexOf (pre @ t @ ch # rest) ch (length pre) = int (length pre + length t)"
  by (simp add: indexOf_def takeWhile_upto)

lemma substring_middle:
  "substring (pre @ t @ rest) (length pre) (length pre + length t) = (if rest = [] \<and> t = [] then [] else t)"
  by (auto simp: substring_def)

lemma substring_tail:
  "rest \<noteq> [] \<Longrightarrow> substring (pre @ rest) (length pre) (length pre + length rest) = rest"
  by (auto simp: substring_def)

lemma nat_int_sums:
  "nat (int a + int b) = a + b"
  "nat (int a + int b + 1) = Suc (a + b)"
  by simp_all

lemma trim_Nil: "trim [] = []"
  by (simp add: trim_def)

lemma split_at_comma:
  "CHR '','' \<in> set rest \<Longrightarrow>
   \<exists>t rest'. rest = t @ CHR '','' # rest' \<and> CHR '','' \<notin> set t"
  by (metis split_list_first)

lemma parse_loop_from:
  "parse_loop (pre @ rest) (int (length pre)) (indexOf (pre @ rest) CHR '','' (length pre)) acc
     = acc @ data_tokens rest"
proof (induction rest arbitrary: pre acc rule: length_induct)
  case (1 rest)
  show ?case
  proof (cases "CHR '','' \<in> set rest")
    case False
    then have e: "indexOf (pre @ rest) CHR '','' (length pre) = - 1"
      by (rule indexOf_none)
    show ?thesis
    proof (cases "rest = []")
      case True
      then show ?thesis
        unfolding e by (subst parse_loop.simps) (simp add: data_tokens_def trim_Nil)
    next
      case nonempty: False
      have sub: "substring (pre @ rest) (length pre) (length pre + length rest) = rest"
        using nonempty by (rule substring_tail)
      show ?thesis
        unfolding e using nonempty False
        by (subst parse_loop.simps) (simp add: sub data_tokens_no_comma Let_def)
    qed
  next
    case True
    then obtain t rest' where rest: "rest = t @ CHR '','' # rest'" and t: "CHR '','' \<notin> set t"
      using split_at_comma by blast
    have e: "indexOf (pre @ rest) CHR '','' (length pre) = int (length pre + length t)"
      unfolding rest using t by (rule indexOf_first)
    have sub: "substring (pre @ rest) (length pre) (length pre + length t) = t"
      unfolding rest using substring_middle [of pre t "CHR '','' # rest'"] by simp
    let ?acc = "if trim t \<noteq> [] then acc @ [word_of_int (strtol (trim t) 16)] else acc"
    have shorter: "length rest' < length rest"
      by (simp add: rest)
    have whole: "(pre @ t @ [CHR '','']) @ rest' = pre @ rest"
      by (simp add: rest)
    let ?next = "parse_loop (pre @ rest) (int (length pre) + int (length t) + 1)
              (indexOf (pre @ rest) CHR '','' (Suc (length pre + length t)))"
    have "parse_loop ((pre @ t @ [CHR '','']) @ rest') (int (length (pre @ t @ [CHR '',''])))
             (indexOf ((pre @ t @ [CHR '','']) @ rest') CHR '','' (length (pre @ t @ [CHR '',''])))
             ?acc = ?acc @ data_tokens rest'"
      using "1.IH" shorter by blast
    then have again: "?next ?acc = ?acc @ data_tokens rest'"
      unfolding whole by (simp add: add.commute add.left_commute del: parse_loop.simps)
    have "parse_loop (pre @ rest) (int (length pre)) (int (length pre + length t)) acc = ?next ?acc"
      using sub by (subst parse_loop.simps) (simp add: Let_def nat_int_sums del: parse_loop.simps)
    also note again
    also have "?acc @ data_tokens rest' = acc @ data_tokens rest"
      unfolding rest using t by (simp add: data_tokens_first)
    finally show ?thesis
      unfolding e .
  qed
qed

lemma parse_data_bytes_eq: "parse_data_bytes str = data_tokens str"
  using parse_loop_from [of "[]" str "[]"] by (simp add: parse_data_bytes_def)

lemma trim_empty_iff: "(trim t = []) = (\<forall>c \<in> set t. isspace c)"
proof
  assume "trim t = []"
  then have "dropWhile isspace (rev (dropWhile isspace t)) = []"
    unfolding trim_def by simp
  then have all: "\<forall>c \<in> set (dropWhile isspace t). isspace c"
    by (metis dropWhile_eq_Nil_conv set_rev)
  have "dropWhile isspace t = []"
  proof (rule ccontr)
    assume ne: "dropWhile isspace t \<noteq> []"
    then have "\<not> isspace (hd (dropWhile isspace t))"
      by (rule hd_dropWhile)
    moreover have "hd (dropWhile isspace t) \<in> set (dropWhile isspace t)"
      using ne by (rule hd_in_set)
    ultimately show False using all by blast
  qed
  then show "\<forall>c \<in> set t. isspace c"
    by (metis dropWhile_eq_Nil_conv)
next
  assume "\<forall>c \<in> set t. isspace c"
  then have none: "dropWhile isspace t = []"
    by (metis dropWhile_eq_Nil_conv)
  show "trim t = []"
    by (simp only: trim_def none rev.simps dropWhile.simps)
qed

lemma handleWriteBytes_no_data:
  assumes "params ''bus_id'' = Some bus_str" and "params ''device_addr'' = Some addr_str"
    and "params ''reg_addr'' = Some reg_str" and "params ''data'' = Some data_str"
    and "parse_data_bytes data_str = []"
  shows "handleWriteBytes p params s = Some (no_data_response, s)"
  using assms by (simp add: handleWriteBytes_def no_data_response_def)

lemma handleWriteBytes_data:
  assumes "params ''bus_id'' = Some bus_str" and "params ''device_addr'' = Some addr_str"
    and "params ''reg_addr'' = Some reg_str" and "params ''data'' = Some data_str"
    and "parse_data_bytes data_str \<noteq> []"
  shows "handleWriteBytes p params s =
     (case writeBytes p (word_of_int (toInt bus_str)) (word_of_int (strtol addr_str 16))
             (word_of_int (strtol reg_str 16)) (Some (parse_data_bytes data_str))
             (length (parse_data_bytes data_str)) s of
        None \<Rightarrow> None
      | Some (success, s') \<Rightarrow>
          Some (write_bytes_response (word_of_int (toInt bus_str)) (word_of_int (strtol addr_str 16))
                  (word_of_int (strtol reg_str 16)) (length (parse_data_bytes data_str))
                  success (getLastError s'), s'))"
  using assms
  by (auto simp: handleWriteBytes_def write_bytes_response_def Let_def split: option.splits)

lemma parse_example: "parse_data_bytes ''0x01, 0x02,,0x03'' = [0x01, 0x02, 0x03]"
  by code_simp

lemma handleWriteBytes_example:
  assumes "params ''bus_id'' = Some bus_str" and "params ''device_addr'' = Some addr_str"
    and "params ''reg_addr'' = Some reg_str" and "params ''data'' = Some ''0x01, 0x02,,0x03''"
  shows "handleWriteBytes p params s =
     (case writeBytes p (word_of_int (toInt bus_str)) (word_of_int (strtol addr_str 16))
             (word_of_int (strtol reg_str 16)) (Some [0x01, 0x02, 0x03]) 3 s of
        None \<Rightarrow> None
      | Some (success, s') \<Rightarrow>
          Some (write_bytes_response (word_of_int (toInt bus_str)) (word_of_int (strtol addr_str 16))
                  (word_of_int (strtol reg_str 16)) 3 success (getLastError s'), s'))"
proof -
  have filled: "parse_data_bytes ''0x01, 0x02,,0x03'' \<noteq> []"
    by (simp add: parse_example)
  have three: "length [0x01, 0x02, 0x03 :: uint8] = 3"
    by simp
  show ?thesis
    using handleWriteBytes_data [OF assms filled, of p s] unfolding parse_example three .
qed

text \<open>C9. The parsing loop of \<^verbatim>\<open>handleWriteBytes\<close> yields, for every string, the hex value
  (as a byte) of each trimmed token of the comma-separated list that is not empty, in order;
  a token trims to empty exactly when it is empty or all white space. The string
  "0x01, 0x02,,0x03" gives the bytes 1, 2, 3. When all four parameters are present and the
  parsed list is empty, the handler returns status 400 and the state, outside world
  included, is as it was, whatever the platform: no transaction has taken place. When the
  parsed list is not empty, the handler calls \<^verbatim>\<open>writeBytes\<close> once, with exactly the parsed
  bytes and their number, for the bus, device and register of the request, and answers with
  the outcome of that call (status 200 on success, 500 otherwise); so a request with the
  data "0x01, 0x02,,0x03" writes the three bytes 1, 2, 3.\<close>

theorem write_bytes_data_parsing:
  "parse_data_bytes ''0x01, 0x02,,0x03'' = [0x01, 0x02, 0x03]
   \<and> parse_data_bytes data_str
       = map (\<lambda>t. word_of_int (strtol t 16))
           (filter (\<lambda>t. t \<noteq> []) (map trim (split_commas data_str)))
   \<and> (trim t = []) = (\<forall>c \<in> set t. isspace c)
   \<and> (params ''bus_id'' = Some bus_str \<and> params ''device_addr'' = Some addr_str
        \<and> params ''reg_addr'' = Some reg_str \<and> params ''data'' = Some data_str
        \<and> parse_data_bytes data_str = [] \<longrightarrow>
       handleWriteBytes p params s = Some (no_data_response, s))
   \<and> snd no_data_response = 400
   \<and> (params ''bus_id'' = Some bus_str \<and> params ''device_addr'' = Some addr_str
        \<and> params ''reg_addr'' = Some reg_str \<and> params ''data'' = Some data_str
        \<and> parse_data_bytes data_str \<noteq> [] \<longrightarrow>
       handleWriteBytes p params s =
         (case writeBytes p (word_of_int (toInt bus_str)) (word_of_int (strtol addr_str 16))
                 (word_of_int (strtol reg_str 16)) (Some (parse_data_bytes data_str))
                 (length (parse_data_bytes data_str)) s of
            None \<Rightarrow> None
          | Some (success, s') \<Rightarrow>
              Some (write_bytes_response (word_of_int (toInt bus_str))
                      (word_of_int (strtol addr_str 16)) (word_of_int (strtol reg_str 16))
                      (length (parse_data_bytes data_str)) success (getLastError s'), s')))
   \<and> (params ''bus_id'' = Some bus_str \<and> params ''device_addr'' = Some addr_str
        \<and> params ''reg_addr'' = Some reg_str \<and> params ''data'' = Some ''0x01, 0x02,,0x03'' \<longrightarrow>
       handleWriteBytes p params s =
         (case writeBytes p (word_of_int (toInt bus_str)) (word_of_int (strtol addr_str 16))
                 (word_of_int (strtol reg_str 16)) (Some [0x01, 0x02, 0x03]) 3 s of
            None \<Rightarrow> None
          | Some (success, s') \<Rightarrow>
              Some (write_bytes_response (word_of_int (toInt bus_str))
                      (word_of_int (strtol addr_str 16)) (word_of_int (strtol reg_str 16))
                      3 success (getLastError s'), s')))"
proof -
  have example: "parse_data_bytes ''0x01, 0x02,,0x03'' = [0x01, 0x02, 0x03]"
    by code_simp
  have tokens: "parse_data_bytes data_str
       = map (\<lambda>t. word_of_int (strtol t 16))
           (filter (\<lambda>t. t \<noteq> []) (map trim (split_commas data_str)))"
    by (simp add: parse_data_bytes_eq data_tokens_def)
  have status: "snd no_data_response = 400"
    by (simp add: no_data_response_def)
  show ?thesis
    using example tokens status trim_empty_iff [of t]
      handleWriteBytes_no_data [of params bus_str addr_str reg_str data_str p s]
      handleWriteBytes_data [of params bus_str addr_str reg_str data_str p s]
      handleWriteBytes_example [of params bus_str addr_str reg_str p s]
    by blast
qed

theorem write_bytes_data_parsing_witness:
  "parse_data_bytes '' , ,'' = []
   \<and> trim '' '' = []
   \<and> handleWriteBytes sim_platform blank_request (bus0_state sim_world0)
       = Some (no_data_response, bus0_state sim_world0)
   \<and> snd no_data_response = 400
   \<and> handleWriteBytes sim_platform three_byte_request (bus0_state sim_world0)
       = Some (write_bytes_response 0 0x48 0x10 3 True SUCCESS,
               bus0_state (sim_stored Wire 0x48 0x10 [0x01, 0x02, 0x03] (\<lambda>r. 0) sim_world0))
   \<and> snd (write_bytes_response 0 0x48 0x10 3 True SUCCESS) = 200
   \<and> map (the (registers (sim_stored Wire 0x48 0x10 [0x01, 0x02, 0x03] (\<lambda>r. 0) sim_world0)
                  Wire 0x48)) [0x10, 0x11, 0x12] = [0x01, 0x02, 0x03]"
proof -
  have empty: "parse_data_bytes '' , ,'' = []"
    by code_simp
  have blank: "\<forall>c \<in> set '' ''. isspace c"
    by (simp add: isspace_def)
  have ps: "blank_request ''bus_id'' = Some ''0''" "blank_request ''device_addr'' = Some ''0x48''"
    "blank_request ''reg_addr'' = Some ''0x00''" "blank_request ''data'' = Some '' , ,''"
    by (simp_all add: blank_request_def)
  have qs: "three_byte_request ''bus_id'' = Some ''0''"
    "three_byte_request ''device_addr'' = Some ''0x48''"
    "three_byte_request ''reg_addr'' = Some ''0x10''"
    "three_byte_request ''data'' = Some ''0x01, 0x02,,0x03''"
    by (simp_all add: three_byte_request_def)
  have numbers: "(word_of_int (toInt ''0'') :: uint8) = 0"
    "(word_of_int (strtol ''0x48'' 16) :: uint8) = 0x48"
    "(word_of_int (strtol ''0x10'' 16) :: uint8) = 0x10"
    by code_simp+
  have written: "writeBytes sim_platform 0 0x48 0x10 (Some [0x01, 0x02, 0x03]) 3 (bus0_state sim_world0)
     = Some (True, bus0_state (sim_stored Wire 0x48 0x10 [0x01, 0x02, 0x03] (\<lambda>r. 0) sim_world0))"
    by (simp add: writeBytes_def validateBusAndAddress_def isBusInitialized_def getBus_def
        bus0_state_def sim_platform_def sim_endTransmission_def sim_world0_def sim_stored_def
        sim_sent_def setError_def Let_def)
  have kept: "getLastError (bus0_state w) = SUCCESS" for w :: sim_world
    by (simp add: getLastError_def bus0_state_def)
  have stored: "map (the (registers (sim_stored Wire 0x48 0x10 [0x01, 0x02, 0x03] (\<lambda>r. 0) sim_world0)
                  Wire 0x48)) [0x10, 0x11, 0x12] = [0x01, 0x02, 0x03]"
    by (simp add: sim_stored_def sim_sent_def sim_world0_def)
  have ok: "snd (write_bytes_response 0 0x48 0x10 3 True SUCCESS) = 200"
    by (simp add: write_bytes_response_def)
  have refused: "handleWriteBytes sim_platform blank_request (bus0_state sim_world0)
       = Some (no_data_response, bus0_state sim_world0) \<and> snd no_data_response = 400
       \<and> trim '' '' = []"
    using write_bytes_data_parsing [of "'' , ,''" "'' ''" blank_request "''0''" "''0x48''" "''0x00''"
        sim_platform "bus0_state sim_world0"] empty blank ps
    by blast
  have general: "handleWriteBytes sim_platform three_byte_request (bus0_state sim_world0)
       = Some (write_bytes_response 0 0x48 0x10 3 True SUCCESS,
               bus0_state (sim_stored Wire 0x48 0x10 [0x01, 0x02, 0x03] (\<lambda>r. 0) sim_world0))"
    using write_bytes_data_parsing [of "''0x01, 0x02,,0x03''" "'' ''" three_byte_request "''0''"
        "''0x48''" "''0x10''" sim_platform "bus0_state sim_world0"] qs
    by (simp add: numbers written kept)
  show ?thesis
    using empty refused general ok stored by blast
qed

section \<open>The registry is changed by initBus only\<close>

lemma ops_keep_buses:
  "writeRegister p b a r v s = Some (ok, s') \<Longrightarrow> buses s' = buses s"
  "writeRegister16 p b a r d s = Some (ok, s') \<Longrightarrow> buses s' = buses s"
  "isDevicePresent p b a s = Some (ok, s') \<Longrightarrow> buses s' = buses s"
  "beginTransmission p b a s = Some (ok, s') \<Longrightarrow> buses s' = buses s"
  "endTransmission p b stop s = Some (ok, s') \<Longrightarrow> buses s' = buses s"
  "requestFrom p b a q stop s = Some (ok, s') \<Longrightarrow> buses s' = buses s"
  by (auto simp: writeRegister_def writeRegister16_def isDevicePresent_def beginTransmission_def
      endTransmission_def requestFrom_def validateBusAndAddress_def setError_def Let_def
      split: if_splits option.splits prod.splits)

lemma validate_keeps_buses: "buses (snd (validateBusAndAddress b a s)) = buses s"
  by (simp add: validateBusAndAddress_def setError_def)

lemma writeBytes_keeps_buses:
  assumes "writeBytes p b a r data n s = Some (ok, s')"
  shows "buses s' = buses s"
proof -
  have v: "buses (snd (validateBusAndAddress b a s)) = buses s"
    by (rule validate_keeps_buses)
  show ?thesis
  proof (cases "\<not> fst (validateBusAndAddress b a s) \<or> data = None \<or> n = 0")
    case True
    with assms v show ?thesis
      by (auto simp: writeBytes_def case_prod_beta setError_def)
  next
    case False
    with assms v show ?thesis
      by (auto simp: writeBytes_def case_prod_beta setError_def Let_def
          split: option.splits if_splits)
  qed
qed

lemma readBytes_keeps_buses:
  assumes "readBytes p b a r data n s = Some (ok, out, s')"
  shows "buses s' = buses s"
proof -
  have v: "buses (snd (validateBusAndAddress b a s)) = buses s"
    by (rule validate_keeps_buses)
  show ?thesis
  proof (cases "\<not> fst (validateBusAndAddress b a s) \<or> data = None \<or> n = 0")
    case True
    with assms v show ?thesis
      by (auto simp: readBytes_def case_prod_beta setError_def)
  next
    case False
    with assms v show ?thesis
      by (auto simp: readBytes_def case_prod_beta setError_def Let_def
          split: option.splits if_splits)
  qed
qed

lemma scan_body_keeps_buses:
  "buses (snd (scan_body p wire b a acc)) = buses (snd acc)"
  by (simp add: scan_body_def Let_def onDeviceFound_def case_prod_beta)

lemma fold_scan_body_keeps_buses:
  "buses (snd (fold (scan_body p wire b) as acc)) = buses (snd acc)"
  by (induction as arbitrary: acc) (simp_all add: scan_body_keeps_buses)

lemma scanBus_keeps_buses: "buses (snd (scanBus p b s)) = buses s"
proof (cases "isBusInitialized b s \<and> getBus b s \<noteq> None")
  case False
  then show ?thesis
    by (auto simp: scanBus_def setError_def)
next
  case True
  then obtain wire where wire: "getBus b s = Some wire" by auto
  obtain f1 s1 where loop: "fold (scan_body p wire b) scan_addresses ([], s) = (f1, s1)"
    by (cases "fold (scan_body p wire b) scan_addresses ([], s)")
  have "buses s1 = buses s"
    using fold_scan_body_keeps_buses [of p wire b scan_addresses "([], s)"] loop by simp
  then show ?thesis
    using True wire loop by (simp add: scanBus_def scan_loop_from_1 mark_lost_eq setError_def)
qed

section \<open>Operations that overwrite the last error\<close>

lemma validate_forgets:
  "validateBusAndAddress b a (s\<lparr>last_error := e\<rparr>) =
     (if fst (validateBusAndAddress b a s) then (True, s\<lparr>last_error := e\<rparr>)
      else validateBusAndAddress b a s)"
  by (simp add: validateBusAndAddress_def isBusInitialized_def setError_def)

lemma getBus_forgets: "getBus b (s\<lparr>last_error := e\<rparr>) = getBus b s"
  by (simp add: getBus_def)

lemma validate_fst_snd:
  "fst (validateBusAndAddress b a s) \<Longrightarrow> snd (validateBusAndAddress b a s) = s"
  by (simp add: validateBusAndAddress_def split: if_splits)

text \<open>These operations give the same result, last error included, whatever the last error
  was before the call: they write it on every path.\<close>

lemma writing_ops_overwrite_last_error:
  "writeRegister p b a reg v8 (s\<lparr>last_error := e\<rparr>) = writeRegister p b a reg v8 s"
  "writeRegister16 p b a reg v16 (s\<lparr>last_error := e\<rparr>) = writeRegister16 p b a reg v16 s"
  "writeBytes p b a reg data n (s\<lparr>last_error := e\<rparr>) = writeBytes p b a reg data n s"
  "readRegister p b a reg (s\<lparr>last_error := e\<rparr>) = readRegister p b a reg s"
  "readRegister16 p b a reg (s\<lparr>last_error := e\<rparr>) = readRegister16 p b a reg s"
  "readBytes p b a reg data n (s\<lparr>last_error := e\<rparr>) = readBytes p b a reg data n s"
  "endTransmission p b stop (s\<lparr>last_error := e\<rparr>) = endTransmission p b stop s"
  by (auto simp: writeRegister_def writeRegister16_def writeBytes_def readRegister_def
      readRegister16_def readBytes_def endTransmission_def validate_forgets getBus_forgets
      validate_fst_snd isBusInitialized_def setError_def Let_def case_prod_beta
      split: option.splits)

lemma initBus_overwrites_last_error:
  "\<not> isBusInitialized b s \<Longrightarrow>
   initBus p b sda scl freq (s\<lparr>last_error := e\<rparr>) = initBus p b sda scl freq s"
  by (simp add: initBus_def isBusInitialized_def setError_def Let_def case_prod_beta)

lemma mark_lost_forgets:
  "mark_lost b found ds (s\<lparr>last_error := e\<rparr>) =
     (fst (mark_lost b found ds s), (snd (mark_lost b found ds s))\<lparr>last_error := e\<rparr>)"
  by (simp add: mark_lost_eq)

lemma scan_body_forgets:
  "scan_body p wire b a (found, s\<lparr>last_error := e\<rparr>) =
     (fst (scan_body p wire b a (found, s)), (snd (scan_body p wire b a (found, s)))\<lparr>last_error := e\<rparr>)"
  by (simp add: scan_body_def onDeviceFound_def Let_def case_prod_beta)

lemma fold_scan_body_forgets:
  "fold (scan_body p wire b) as (found, s\<lparr>last_error := e\<rparr>) =
     (fst (fold (scan_body p wire b) as (found, s)),
      (snd (fold (scan_body p wire b) as (found, s)))\<lparr>last_error := e\<rparr>)"
proof (induction as arbitrary: found s)
  case Nil
  show ?case by simp
next
  case (Cons a as)
  obtain f1 s1 where step: "scan_body p wire b a (found, s) = (f1, s1)"
    by (cases "scan_body p wire b a (found, s)")
  show ?case
    using Cons.IH [of f1 s1] by (simp add: scan_body_forgets step)
qed

lemma scanBus_overwrites_last_error:
  "scanBus p b (s\<lparr>last_error := e\<rparr>) = scanBus p b s"
  by (simp add: scanBus_def isBusInitialized_def getBus_forgets scan_loop_from_1
      fold_scan_body_forgets mark_lost_eq setError_def Let_def case_prod_beta
      split: option.splits)

end
